theory Spec2Isabelle
  imports Main "HOL-Library.Sublist"
begin

section \<open>Data model\<close>

text \<open>
  JavaScript strings are modelled as \<open>string\<close> (lists of 8-bit characters), JavaScript
  numbers that hold minute counts as \<open>int\<close> (fractions and \<open>NaN\<close> are not covered). A
  thrown \<open>Error\<close> is the value \<open>Inl msg\<close> carrying its message, because the client
  inspects the message text of what it catches. Invocations do not overlap: each
  function runs from start to end on the state it is given.
\<close>

text \<open>\<open>TimeRemaining\<close> of FritzClient.\<close>

record TimeRemaining =
  used :: string
  total :: string
  remainingMinutes :: int
  isExhausted :: bool

text \<open>
  \<open>MessageConfig\<close>, \<open>NumberConfig\<close> and \<open>Config\<close>. Of \<open>Config\<close>, the fields that the alert
  manager reads or \<open>validateConfig\<close> checks are kept (\<open>fritz.url\<close>, \<open>fritz.device_name\<close>,
  \<open>NumbersToSMS\<close>, \<open>cron_schedule\<close>); \<open>TimeRulesByDay\<close> and \<open>logging\<close> are left out.
\<close>

record MessageConfig =
  minutes :: int
  message :: string

record NumberConfig =
  number :: string
  isAdmin :: bool
  MessageWhenRemainingMins :: "MessageConfig list"

record Config =
  fritz_url :: string
  device_name :: string
  NumbersToSMS :: "NumberConfig list"
  cron_schedule :: string

text \<open>
  Rows of the tables \<open>alert_logs\<close> and \<open>system_logs\<close>. The columns \<open>id\<close>, \<open>sent_at\<close> and
  \<open>timestamp\<close> (row number and wall-clock instant of the insert) are left out: none of the
  queries modelled here reads them.
\<close>

record AlertLog =
  phone_number :: string
  alert_message :: string
  remaining_minutes :: int
  date :: string

datatype level = info | warn | error

record SystemLog =
  event :: string
  log_message :: string
  log_level :: level

text \<open>
  One call of \<open>SmsService.sendSms\<close>: the two arguments and the boolean it returned.
  \<open>sms_date\<close> and \<open>sms_key\<close> are bookkeeping of the model only: the calendar day and the
  dedup key the caller would record on success. \<open>sendSms\<close> itself never sees them.
\<close>

record SmsCall =
  sms_to :: string
  sms_body :: string
  sms_date :: string
  sms_key :: int
  sms_ok :: bool

text \<open>
  HTTP requests issued through axios (path and, for a POST, the body; the headers are
  fixed), and what axios gives back. Response bodies are strings.
\<close>

datatype request = Get string | Post string string

datatype http =
  Failed string \<comment> \<open>axios rejected (network error, timeout, non-2xx status): the error message\<close>
  | Response nat string \<comment> \<open>status and body of a 2xx response\<close>

text \<open>
  The mutable state the program works on: the session held by the FritzClient, the
  requests issued so far, both database tables (oldest row first) and the SMS calls made.
\<close>

record world =
  sessionId :: "string option"
  requests :: "request list"
  alert_logs :: "AlertLog list"
  system_logs :: "SystemLog list"
  sms_calls :: "SmsCall list"

text \<open>
  The surroundings: the router answers the \<open>k\<close>-th request issued, Twilio accepts or
  rejects the \<open>k\<close>-th message, and library functions the client calls
  (\<open>md5hex t\<close> is the hex MD5 digest of the UTF-16LE encoding of \<open>t\<close>).
  \<open>regExpMatchOther src str\<close> is what \<open>str.match(new RegExp(src))\<close> gives for a pattern
  source \<open>src\<close> written in syntax that \<open>parseRegExp\<close> below does not read: \<open>Inl\<close> the
  message of the \<open>SyntaxError\<close> the constructor throws, \<open>Inr None\<close> for \<open>null\<close>,
  \<open>Inr (Some m)\<close> for a match whose element 0 is \<open>m\<close>.
\<close>

record env =
  router :: "nat \<Rightarrow> request \<Rightarrow> http"
  twilio :: "nat \<Rightarrow> string \<Rightarrow> string \<Rightarrow> bool"
  md5hex :: "string \<Rightarrow> string"
  encodeURIComponent :: "string \<Rightarrow> string"
  regExpMatchOther :: "string \<Rightarrow> string \<Rightarrow> string + string option"

section \<open>DatabaseService\<close>

definition logAlert :: "world \<Rightarrow> AlertLog \<Rightarrow> world" where
  "logAlert s alert = s\<lparr>alert_logs := alert_logs s @ [alert]\<rparr>"

definition logSystem :: "world \<Rightarrow> SystemLog \<Rightarrow> world" where
  "logSystem s log = s\<lparr>system_logs := system_logs s @ [log]\<rparr>"

text \<open>
  The query counts the rows \<open>WHERE phone_number = ? AND date = ? AND remaining_minutes = ?\<close>;
  \<open>wasAlertSentForMinutes\<close> returns \<open>count > 0\<close>.
\<close>

definition alertCount :: "AlertLog list \<Rightarrow> string \<Rightarrow> string \<Rightarrow> int \<Rightarrow> nat" where
  "alertCount db phoneNumber day mins =
     length (filter (\<lambda>r. phone_number r = phoneNumber \<and> date r = day \<and> remaining_minutes r = mins) db)"

definition wasAlertSentForMinutes :: "AlertLog list \<Rightarrow> string \<Rightarrow> string \<Rightarrow> int \<Rightarrow> bool" where
  "wasAlertSentForMinutes db phoneNumber day mins = (alertCount db phoneNumber day mins > 0)"

section \<open>SmsService\<close>

text \<open>\<open>sendSms\<close> catches every error of the Twilio client and returns a boolean.\<close>

definition sendSms :: "env \<Rightarrow> world \<Rightarrow> string \<Rightarrow> string \<Rightarrow> string \<Rightarrow> int \<Rightarrow> bool \<times> world" where
  "sendSms e s to body day key =
     (let ok = twilio e (length (sms_calls s)) to body
      in (ok, s\<lparr>sms_calls := sms_calls s @
            [\<lparr>sms_to = to, sms_body = body, sms_date = day, sms_key = key, sms_ok = ok\<rparr>]\<rparr>))"

section \<open>AlertManager: threshold alerts\<close>

text \<open>Template literals print numbers in decimal.\<close>

fun showNat :: "nat \<Rightarrow> string" where
  "showNat n = (if n < 10 then [char_of (48 + n)] else showNat (n div 10) @ [char_of (48 + n mod 10)])"

definition showInt :: "int \<Rightarrow> string" where
  "showInt i = (if i < 0 then CHR ''-'' # showNat (nat (- i)) else showNat (nat i))"

text \<open>
  The \<open>for\<close> loop of \<open>processAlertsForNumber\<close> over the sorted rules: the first rule with
  \<open>remainingMinutes <= minutes\<close> that the database does not report as sent today is taken,
  and the loop breaks.
\<close>

fun selectMessage :: "AlertLog list \<Rightarrow> string \<Rightarrow> string \<Rightarrow> int \<Rightarrow> MessageConfig list \<Rightarrow> MessageConfig option" where
  "selectMessage db num today rem [] = None"
| "selectMessage db num today rem (messageConfig # rest) =
     (if rem \<le> minutes messageConfig \<and> \<not> wasAlertSentForMinutes db num today (minutes messageConfig)
      then Some messageConfig
      else selectMessage db num today rem rest)"

text \<open>
  \<open>[...].sort((a, b) => b.minutes - a.minutes)\<close>: a stable sort, greatest \<open>minutes\<close> first.
  \<open>sort_key\<close> is insertion sort, stable as well.
\<close>

definition sortedMessages :: "NumberConfig \<Rightarrow> MessageConfig list" where
  "sortedMessages numberConfig = sort_key (\<lambda>m. - minutes m) (MessageWhenRemainingMins numberConfig)"

text \<open>
  \<open>processAlertsForNumber\<close>. The guard \<open>messageToSend && alertMinutes !== null\<close> is false
  for the empty message as well as when the loop took no rule.
\<close>

definition processAlertsForNumber :: "env \<Rightarrow> NumberConfig \<Rightarrow> TimeRemaining \<Rightarrow> string \<Rightarrow> world \<Rightarrow> world" where
  "processAlertsForNumber e numberConfig timeRemaining today s =
     (case selectMessage (alert_logs s) (number numberConfig) today (remainingMinutes timeRemaining)
             (sortedMessages numberConfig) of
        None \<Rightarrow> s
      | Some mc \<Rightarrow>
          if message mc = [] then s
          else
            (let (success, s1) = sendSms e s (number numberConfig) (message mc) today (minutes mc)
             in if success
                then logSystem
                       (logAlert s1 \<lparr>phone_number = number numberConfig, alert_message = message mc,
                                     remaining_minutes = minutes mc, date = today\<rparr>)
                       \<lparr>event = ''alert_sent'',
                        log_message = ''Alert sent to '' @ number numberConfig @ '' for '' @
                                      showInt (minutes mc) @ '' minutes remaining'',
                        log_level = info\<rparr>
                else logSystem s1
                       \<lparr>event = ''alert_failed'',
                        log_message = ''Failed to send alert to '' @ number numberConfig,
                        log_level = error\<rparr>))"

section \<open>FritzClient\<close>

text \<open>Constructor arguments of the client. The session it holds is \<open>sessionId\<close> of the world.\<close>

record FritzClient =
  baseUrl :: string
  username :: string
  password :: string

definition httpRequest :: "env \<Rightarrow> world \<Rightarrow> request \<Rightarrow> http \<times> world" where
  "httpRequest e s r = (router e (length (requests s)) r, s\<lparr>requests := requests s @ [r]\<rparr>)"

subsection \<open>String and regular-expression helpers\<close>

text \<open>\<open>s.includes(t)\<close> (\<open>includes\<close> is a keyword of Isabelle).\<close>

fun includesStr :: "string \<Rightarrow> string \<Rightarrow> bool" where
  "includesStr [] t = (t = [])"
| "includesStr (c # cs) t = (prefix t (c # cs) \<or> includesStr cs t)"

definition isDigit :: "char \<Rightarrow> bool" where
  "isDigit c = (48 \<le> (of_char c :: nat) \<and> (of_char c :: nat) \<le> 57)"

definition isLineTerminator :: "char \<Rightarrow> bool" where
  "isLineTerminator c = (c = CHR 0x0A \<or> c = CHR 0x0D)"

text \<open>
  \<open>(.*?)close\<close> at the start of \<open>s\<close>: the shortest run of characters other than line
  terminators that is followed by \<open>close\<close>.
\<close>

fun lazyUntil :: "string \<Rightarrow> string \<Rightarrow> string option" where
  "lazyUntil close [] = (if prefix close [] then Some [] else None)"
| "lazyUntil close (c # cs) =
     (if prefix close (c # cs) then Some []
      else if isLineTerminator c then None
      else map_option ((#) c) (lazyUntil close cs))"

definition tagAt :: "string \<Rightarrow> string \<Rightarrow> string option" where
  "tagAt tag s =
     (if prefix (''<'' @ tag @ ''>'') s
      then lazyUntil (''</'' @ tag @ ''>'') (drop (length tag + 2) s)
      else None)"

text \<open>
  \<open>data.match(/<Tag>(.*?)<\/Tag>/)\<close>: group 1 of the leftmost match, \<open>None\<close> for \<open>null\<close>.
\<close>

fun matchTag :: "string \<Rightarrow> string \<Rightarrow> string option" where
  "matchTag tag [] = tagAt tag []"
| "matchTag tag (c # cs) =
     (case tagAt tag (c # cs) of Some g \<Rightarrow> Some g | None \<Rightarrow> matchTag tag cs)"

subsection \<open>getSessionId\<close>

definition authFailed :: "string \<Rightarrow> string" where
  "authFailed msg = ''Failed to authenticate with Fritz router: '' @ msg"

text \<open>
  The login request: \<open>response\<close> is the challenge, a dash and the digest of
  \<open>challenge-password\<close>.
\<close>

definition loginRequest :: "env \<Rightarrow> FritzClient \<Rightarrow> string \<Rightarrow> request" where
  "loginRequest e fc challenge =
     (let response = challenge @ ''-'' @ md5hex e (challenge @ ''-'' @ password fc)
      in Post ''/login_sid.lua''
           (''username='' @ encodeURIComponent e (username fc) @ ''&response='' @ response))"

definition getSessionId :: "env \<Rightarrow> FritzClient \<Rightarrow> world \<Rightarrow> (string + string) \<times> world" where
  "getSessionId e fc s =
     (let (challengeResponse, s1) = httpRequest e s (Get ''/login_sid.lua'')
      in case challengeResponse of
           Failed msg \<Rightarrow> (Inl (authFailed msg), s1)
         | Response _ body \<Rightarrow>
             (case matchTag ''Challenge'' body of
                None \<Rightarrow> (Inl (authFailed ''Could not extract challenge from Fritz router''), s1)
              | Some challenge \<Rightarrow>
                  (let (loginResponse, s2) = httpRequest e s1 (loginRequest e fc challenge)
                   in case loginResponse of
                        Failed msg \<Rightarrow> (Inl (authFailed msg), s2)
                      | Response _ body2 \<Rightarrow>
                          (case matchTag ''SID'' body2 of
                             None \<Rightarrow> (Inl (authFailed ''Fritz router authentication failed''), s2)
                           | Some sid \<Rightarrow>
                               if sid = ''0000000000000000''
                               then (Inl (authFailed ''Fritz router authentication failed''), s2)
                               else (Inr sid, s2\<lparr>sessionId := Some sid\<rparr>)))))"

subsection \<open>parseParentalControlData\<close>

definition dq :: string where
  "dq = [CHR 0x22]"

subsubsection \<open>The device pattern\<close>

text \<open>
  \<open>new RegExp(`<[^>]*>${deviceName}<[^>]*>`)\<close> splices the device name into the pattern
  source as it is, so the name is read as pattern syntax. Patterns are modelled by
  \<open>regex\<close>: a pattern character, \<open>.\<close>, a class \<open>[...]\<close> or \<open>[^...]\<close> of listed characters,
  sequence, alternative, the greedy \<open>*\<close> and the empty pattern. A group only brackets
  its disjunction, \<open>r+\<close> is \<open>r\<close> followed by \<open>r*\<close>, \<open>r?\<close> is \<open>r\<close> or nothing.
\<close>

datatype regex =
  Chr char
  | AnyChar
  | Class bool "char list" \<comment> \<open>\<open>True\<close> for the negated class\<close>
  | Seq regex regex
  | Alt regex regex
  | Star regex
  | Empty

text \<open>
  Backtracking: \<open>rests r s\<close> lists what is left of \<open>s\<close> after each way of matching \<open>r\<close> at
  the start of \<open>s\<close>, in the order in which the matcher tries them (the left alternative
  first, one more iteration of \<open>*\<close> before stopping). An iteration of \<open>*\<close> that matches
  the empty string is not taken, so the length of \<open>s\<close> bounds the iterations.
\<close>

fun iterate :: "nat \<Rightarrow> (string \<Rightarrow> string list) \<Rightarrow> string \<Rightarrow> string list" where
  "iterate 0 f s = [s]"
| "iterate (Suc n) f s =
     concat (map (iterate n f) (filter (\<lambda>t. length t < length s) (f s))) @ [s]"

definition oneChar :: "(char \<Rightarrow> bool) \<Rightarrow> string \<Rightarrow> string list" where
  "oneChar p s = (case s of [] \<Rightarrow> [] | x # xs \<Rightarrow> if p x then [xs] else [])"

primrec rests :: "regex \<Rightarrow> string \<Rightarrow> string list" where
  "rests (Chr c) s = oneChar (\<lambda>x. x = c) s"
| "rests AnyChar s = oneChar (\<lambda>x. \<not> isLineTerminator x) s"
| "rests (Class neg items) s = oneChar (\<lambda>x. if neg then x \<notin> set items else x \<in> set items) s"
| "rests (Seq a b) s = concat (map (rests b) (rests a s))"
| "rests (Alt a b) s = rests a s @ rests b s"
| "rests (Star a) s = iterate (length s) (rests a) s"
| "rests Empty s = [s]"

text \<open>The text matched at the start of \<open>s\<close> by the first way that succeeds.\<close>

definition matchAt :: "regex \<Rightarrow> string \<Rightarrow> string option" where
  "matchAt r s = (case rests r s of [] \<Rightarrow> None | t # _ \<Rightarrow> Some (take (length s - length t) s))"

text \<open>\<open>str.match(r)\<close>: element 0 of the leftmost match, \<open>None\<close> for \<open>null\<close>.\<close>

fun regexMatch :: "regex \<Rightarrow> string \<Rightarrow> string option" where
  "regexMatch r [] = matchAt r []"
| "regexMatch r (c # cs) =
     (case matchAt r (c # cs) of Some m \<Rightarrow> Some m | None \<Rightarrow> regexMatch r cs)"

text \<open>
  Reading a pattern source, one character at a time. The state holds the enclosing
  groups (for each its finished alternatives and the terms of its open alternative),
  the finished alternatives and the terms of the innermost open group (newest first),
  whether the last term may take a quantifier, and whether the reader is behind a
  backslash or inside a class.

  The reader covers pattern characters, \<open>.\<close>, groups \<open>( )\<close>, \<open>|\<close>, the quantifiers \<open>*\<close>,
  \<open>+\<close>, \<open>?\<close>, a backslash in front of a syntax character, and classes that list plain
  characters. It gives \<open>None\<close> on everything else: on syntax it does not cover (\<open>^\<close>,
  \<open>$\<close>, braces, a lone \<open>]\<close>, \<open>(?\<close>, lazy quantifiers, other escapes, ranges and escapes inside
  a class) and on sources the constructor rejects (an unmatched parenthesis, a
  quantifier with nothing to repeat, an unfinished class or escape).
\<close>

datatype mode = Normal | Escaped | ClassOpen | InClass bool "char list"

record pstate =
  outer :: "(regex list \<times> regex list) list"
  alts :: "regex list"
  terms :: "regex list"
  quantifiable :: bool
  mode :: mode

definition seqOf :: "regex list \<Rightarrow> regex" where
  "seqOf ts = foldr Seq ts Empty"

fun altOf :: "regex list \<Rightarrow> regex" where
  "altOf [] = Empty"
| "altOf [a] = a"
| "altOf (a # b # as) = Alt a (altOf (b # as))"

text \<open>The disjunction of a group, from its finished alternatives and its open one.\<close>

definition disjunction :: "regex list \<Rightarrow> regex list \<Rightarrow> regex" where
  "disjunction as ts = altOf (rev (seqOf (rev ts) # as))"

definition atom :: "pstate \<Rightarrow> regex \<Rightarrow> pstate" where
  "atom st r = st\<lparr>terms := r # terms st, quantifiable := True, mode := Normal\<rparr>"

definition syntaxCharacters :: string where
  "syntaxCharacters = CHR 0x5C # ''^$.*+?()[]{}|/''"

definition quantified :: "char \<Rightarrow> regex \<Rightarrow> regex" where
  "quantified q r =
     (if q = CHR ''*'' then Star r else if q = CHR ''+'' then Seq r (Star r) else Alt r Empty)"

definition classCharacter :: "pstate \<Rightarrow> bool \<Rightarrow> char list \<Rightarrow> char \<Rightarrow> pstate option" where
  "classCharacter st neg items c =
     (if c = CHR '']'' then Some (atom st (Class neg (rev items)))
      else if c = CHR 0x5C \<or> c = CHR ''-'' then None
      else Some (st\<lparr>mode := InClass neg (c # items)\<rparr>))"

definition step :: "pstate \<Rightarrow> char \<Rightarrow> pstate option" where
  "step st c =
     (case mode st of
        Escaped \<Rightarrow> if c \<in> set syntaxCharacters then Some (atom st (Chr c)) else None
      | ClassOpen \<Rightarrow>
          if c = CHR ''^'' then Some (st\<lparr>mode := InClass True []\<rparr>)
          else classCharacter st False [] c
      | InClass neg items \<Rightarrow> classCharacter st neg items c
      | Normal \<Rightarrow>
          if c = CHR ''('' then
            Some (st\<lparr>outer := (alts st, terms st) # outer st, alts := [], terms := [],
                     quantifiable := False\<rparr>)
          else if c = CHR '')'' then
            (case outer st of
               [] \<Rightarrow> None
             | (as, ts) # rest \<Rightarrow>
                 Some (st\<lparr>outer := rest, alts := as,
                          terms := disjunction (alts st) (terms st) # ts, quantifiable := True\<rparr>))
          else if c = CHR ''|'' then
            Some (st\<lparr>alts := seqOf (rev (terms st)) # alts st, terms := [], quantifiable := False\<rparr>)
          else if c = CHR ''*'' \<or> c = CHR ''+'' \<or> c = CHR ''?'' then
            (case terms st of
               [] \<Rightarrow> None
             | t # ts \<Rightarrow>
                 if quantifiable st
                 then Some (st\<lparr>terms := quantified c t # ts, quantifiable := False\<rparr>)
                 else None)
          else if c = CHR ''['' then Some (st\<lparr>mode := ClassOpen\<rparr>)
          else if c = CHR 0x5C then Some (st\<lparr>mode := Escaped\<rparr>)
          else if c = CHR ''.'' then Some (atom st AnyChar)
          else if c \<in> set ''^$]{}'' then None
          else Some (atom st (Chr c)))"

fun parseFrom :: "pstate \<Rightarrow> string \<Rightarrow> pstate option" where
  "parseFrom st [] = Some st"
| "parseFrom st (c # cs) = (case step st c of None \<Rightarrow> None | Some st' \<Rightarrow> parseFrom st' cs)"

definition parseRegExp :: "string \<Rightarrow> regex option" where
  "parseRegExp src =
     (case parseFrom \<lparr>outer = [], alts = [], terms = [], quantifiable = False, mode = Normal\<rparr> src of
        None \<Rightarrow> None
      | Some st \<Rightarrow>
          if mode st = Normal \<and> outer st = [] then Some (disjunction (alts st) (terms st))
          else None)"

text \<open>
  \<open>htmlData.match(deviceRegex)\<close>: by the matcher above when \<open>parseRegExp\<close> reads the
  source, as the surroundings say otherwise.
\<close>

definition deviceMatch :: "env \<Rightarrow> string \<Rightarrow> string \<Rightarrow> string + string option" where
  "deviceMatch e deviceName htmlData =
     (case parseRegExp (''<[^>]*>'' @ deviceName @ ''<[^>]*>'') of
        Some r \<Rightarrow> Inr (regexMatch r htmlData)
      | None \<Rightarrow> regExpMatchOther e (''<[^>]*>'' @ deviceName @ ''<[^>]*>'') htmlData)"

text \<open>\<open>str.indexOf(m)\<close>, with \<open>None\<close> for \<open>-1\<close>; \<open>str.substring(-1)\<close> is the whole of \<open>str\<close>.\<close>

fun indexOf :: "string \<Rightarrow> string \<Rightarrow> nat option" where
  "indexOf [] m = (if m = [] then Some 0 else None)"
| "indexOf (c # cs) m = (if prefix m (c # cs) then Some 0 else map_option Suc (indexOf cs m))"

definition substringFrom :: "string \<Rightarrow> nat option \<Rightarrow> string" where
  "substringFrom str i = (case i of None \<Rightarrow> str | Some k \<Rightarrow> drop k str)"

subsubsection \<open>The time markers\<close>

definition exhaustedSpan :: string where
  "exhaustedSpan = ''<span title='' @ dq @ ''Online time exhausted'' @ dq @ ''>''"

text \<open>A match is the array \<open>[match[0], match[1], ...]\<close>.\<close>

definition searchExhausted :: "string \<Rightarrow> string list option" where
  "searchExhausted s = (if includesStr s exhaustedSpan then Some [exhaustedSpan] else None)"

definition matchLit :: "string \<Rightarrow> string \<Rightarrow> string option" where
  "matchLit lit s = (if prefix lit s then Some (drop (length lit) s) else None)"

text \<open>Whether \<open>l\<close> as a whole matches \<open>\d{n}:\d{2}\<close>.\<close>

definition isLabel :: "nat \<Rightarrow> string \<Rightarrow> bool" where
  "isLabel n l =
     (length l = n + 3 \<and> list_all isDigit (take n l) \<and> l ! n = CHR '':'' \<and>
      list_all isDigit (drop (n + 1) l))"

text \<open>\<open>\d{n}:\d{2}\<close> at the start of \<open>s\<close>: the label and what follows it.\<close>

definition matchLabel :: "nat \<Rightarrow> string \<Rightarrow> (string \<times> string) option" where
  "matchLabel n s =
     (let l = take (n + 3) s in if isLabel n l then Some (l, drop (n + 3) s) else None)"

text \<open>\<open><span title="(\d{2}:\d{2}) of (\d{n}:\d{2}) hours">\<close> at the start of \<open>s\<close>.\<close>

definition timeSpanAt :: "nat \<Rightarrow> string \<Rightarrow> string list option" where
  "timeSpanAt n s =
     (case matchLit (''<span title='' @ dq) s of
        None \<Rightarrow> None
      | Some s1 \<Rightarrow>
          (case matchLabel 2 s1 of
             None \<Rightarrow> None
           | Some (u, s2) \<Rightarrow>
               (case matchLit '' of '' s2 of
                  None \<Rightarrow> None
                | Some s3 \<Rightarrow>
                    (case matchLabel n s3 of
                       None \<Rightarrow> None
                     | Some (t, s4) \<Rightarrow>
                         (case matchLit ('' hours'' @ dq @ ''>'') s4 of
                            None \<Rightarrow> None
                          | Some _ \<Rightarrow>
                              Some [''<span title='' @ dq @ u @ '' of '' @ t @ '' hours'' @ dq @ ''>'', u, t])))))"

fun searchTimeSpan :: "nat \<Rightarrow> string \<Rightarrow> string list option" where
  "searchTimeSpan n [] = timeSpanAt n []"
| "searchTimeSpan n (c # cs) =
     (case timeSpanAt n (c # cs) of Some m \<Rightarrow> Some m | None \<Rightarrow> searchTimeSpan n cs)"

text \<open>\<open>timeStr.split(':')\<close>.\<close>

fun split :: "char \<Rightarrow> string \<Rightarrow> string list" where
  "split sep [] = [[]]"
| "split sep (c # cs) =
     (if c = sep then [] # split sep cs
      else (case split sep cs of [] \<Rightarrow> [[c]] | p # ps \<Rightarrow> (c # p) # ps))"

text \<open>
  \<open>Number(str)\<close> where \<open>str\<close> is a non-empty string of ASCII digits: its decimal value.
  \<open>None\<close> stands for every other outcome (\<open>NaN\<close> among them); the labels the patterns
  capture never lead there (lemma \<open>calculateRemainingMinutes_labels\<close>).
\<close>

definition digitValue :: "char \<Rightarrow> int" where
  "digitValue c = int (of_char c) - 48"

definition decimal :: "string \<Rightarrow> int" where
  "decimal str = foldl (\<lambda>a c. 10 * a + digitValue c) 0 str"

definition Number :: "string \<Rightarrow> int option" where
  "Number str = (if str \<noteq> [] \<and> list_all isDigit str then Some (decimal str) else None)"

definition parseTime :: "string \<Rightarrow> int option" where
  "parseTime timeStr =
     (case map Number (split (CHR '':'') timeStr) of
        Some hours # Some mins # _ \<Rightarrow> Some (hours * 60 + mins)
      | _ \<Rightarrow> None)"

definition calculateRemainingMinutes :: "string \<Rightarrow> string \<Rightarrow> int option" where
  "calculateRemainingMinutes u t =
     (case (parseTime u, parseTime t) of
        (Some usedMinutes, Some totalMinutes) \<Rightarrow> Some (max 0 (totalMinutes - usedMinutes))
      | _ \<Rightarrow> None)"

definition exhaustedResult :: TimeRemaining where
  "exhaustedResult = \<lparr>used = ''N/A'', total = ''N/A'', remainingMinutes = 0, isExhausted = True\<rparr>"

text \<open>
  The loop over \<open>spanMatches\<close>: the first match that is not \<open>null\<close> decides. A match
  without the word \<open>exhausted\<close> is one of the two time patterns and has groups 1 and 2.
\<close>

fun firstSpanMatch :: "string list option list \<Rightarrow> string + TimeRemaining" where
  "firstSpanMatch [] = Inl ''Could not parse time information from parental control data''"
| "firstSpanMatch (None # rest) = firstSpanMatch rest"
| "firstSpanMatch (Some m # rest) =
     (if includesStr (m ! 0) ''exhausted'' then Inr exhaustedResult
      else
        (case calculateRemainingMinutes (m ! 1) (m ! 2) of
           Some r \<Rightarrow> Inr \<lparr>used = m ! 1, total = m ! 2, remainingMinutes = r, isExhausted = (r \<le> 0)\<rparr>
         | None \<Rightarrow> Inl ''remainingMinutes is not an integer''))"

definition parseFailed :: "string \<Rightarrow> string" where
  "parseFailed msg = ''Failed to parse parental control data: '' @ msg"

text \<open>
  \<open>parseParentalControlData\<close>. Whatever is thrown inside its \<open>try\<close> block, the
  \<open>SyntaxError\<close> of the constructor included, is thrown again with the prefix of
  \<open>parseFailed\<close>.
\<close>

definition parseParentalControlData :: "env \<Rightarrow> string \<Rightarrow> string \<Rightarrow> string + TimeRemaining" where
  "parseParentalControlData e htmlData deviceName =
     (case deviceMatch e deviceName htmlData of
        Inl msg \<Rightarrow> Inl (parseFailed msg)
      | Inr None \<Rightarrow>
          Inl (parseFailed (''Device '' @ dq @ deviceName @ dq @ '' not found in parental control data''))
      | Inr (Some deviceMatch0) \<Rightarrow>
          (let deviceIndex = indexOf htmlData deviceMatch0;
               afterDevice = substringFrom htmlData deviceIndex
           in case firstSpanMatch
                     [searchExhausted afterDevice, searchTimeSpan 2 afterDevice,
                      searchTimeSpan 1 afterDevice] of
                Inl msg \<Rightarrow> Inl (parseFailed msg)
              | Inr timeRemaining \<Rightarrow> Inr timeRemaining))"

subsection \<open>getParentalControlData and testConnection\<close>

text \<open>
  The \<open>try\<close> block of \<open>getParentalControlData\<close>: authenticate when no session is held
  (\<open>!this.sessionId\<close> holds for \<open>null\<close> and for the empty string), post the query, parse.
\<close>

definition fetchAndParse :: "env \<Rightarrow> FritzClient \<Rightarrow> string \<Rightarrow> world \<Rightarrow> (string + TimeRemaining) \<times> world" where
  "fetchAndParse e fc deviceName s =
     (let (auth, s1) =
            (if sessionId s = None \<or> sessionId s = Some [] then getSessionId e fc s else (Inr [], s))
      in case auth of
           Inl msg \<Rightarrow> (Inl msg, s1)
         | Inr _ \<Rightarrow>
             (let sid = (case sessionId s1 of None \<Rightarrow> ''null'' | Some i \<Rightarrow> i);
                  (response, s2) =
                     httpRequest e s1 (Post ''/data.lua'' (''xhr=1&sid='' @ sid @ ''&page=kidLis''))
              in case response of
                   Failed msg \<Rightarrow> (Inl msg, s2)
                 | Response _ body \<Rightarrow> (parseParentalControlData e body deviceName, s2)))"

text \<open>
  \<open>getParentalControlData\<close> calls itself from its \<open>catch\<close> block, with nothing that
  counts the calls. The first argument bounds the number of calls; \<open>None\<close> is the result
  when the bound is used up before a call returns or throws.
\<close>

fun getParentalControlData ::
  "nat \<Rightarrow> env \<Rightarrow> FritzClient \<Rightarrow> string \<Rightarrow> world \<Rightarrow> (string + TimeRemaining) option \<times> world" where
  "getParentalControlData 0 e fc deviceName s = (None, s)"
| "getParentalControlData (Suc calls) e fc deviceName s =
     (case fetchAndParse e fc deviceName s of
        (Inr timeRemaining, s1) \<Rightarrow> (Some (Inr timeRemaining), s1)
      | (Inl msg, s1) \<Rightarrow>
          if includesStr msg ''session''
          then
            (case getSessionId e fc (s1\<lparr>sessionId := None\<rparr>) of
               (Inl msg2, s2) \<Rightarrow> (Some (Inl msg2), s2)
             | (Inr _, s2) \<Rightarrow> getParentalControlData calls e fc deviceName s2)
          else (Some (Inl (''Failed to fetch parental control data: '' @ msg)), s1))"

definition testConnection :: "env \<Rightarrow> world \<Rightarrow> bool \<times> world" where
  "testConnection e s =
     (let (response, s1) = httpRequest e s (Get ''/'')
      in (case response of Failed _ \<Rightarrow> False | Response status _ \<Rightarrow> status = 200, s1))"

section \<open>AlertManager: connection errors and the check\<close>

text \<open>The fixed text of the connection alert; the warning sign is given by its UTF-8 bytes.\<close>

definition connectionMessage :: string where
  "connectionMessage =
     [CHR 0xE2, CHR 0x9A, CHR 0xA0, CHR 0xEF, CHR 0xB8, CHR 0x8F] @
     '' Get A Life Alert: Cannot connect to Fritz router. Please check the system.''"

text \<open>The body of the loop over the admin numbers.\<close>

definition alertAdmin :: "env \<Rightarrow> string \<Rightarrow> world \<Rightarrow> NumberConfig \<Rightarrow> world" where
  "alertAdmin e today s admin =
     (if \<not> wasAlertSentForMinutes (alert_logs s) (number admin) today (- 1)
      then
        (let (success, s1) = sendSms e s (number admin) connectionMessage today (- 1)
         in if success
            then logAlert s1 \<lparr>phone_number = number admin, alert_message = connectionMessage,
                              remaining_minutes = - 1, date = today\<rparr>
            else s1)
      else s)"

definition handleFritzConnectionError :: "env \<Rightarrow> Config \<Rightarrow> string \<Rightarrow> world \<Rightarrow> world" where
  "handleFritzConnectionError e cfg today s =
     logSystem (foldl (alertAdmin e today) s (filter isAdmin (NumbersToSMS cfg)))
       \<lparr>event = ''fritz_connection_error'', log_message = ''Cannot connect to Fritz router'',
        log_level = error\<rparr>"

text \<open>
  The \<open>try\<close> block of \<open>checkAndAlert\<close>. \<open>today\<close> is the day read when the check starts,
  \<open>errorDay\<close> the day \<open>handleFritzConnectionError\<close> reads when it runs. The result is
  \<open>Some (Inl msg)\<close> when the block throws, which only \<open>getParentalControlData\<close> does
  (\<open>testConnection\<close> and \<open>sendSms\<close> catch everything, and the database calls are taken
  not to fail), and \<open>None\<close> when \<open>getParentalControlData\<close> does not come back.
\<close>

definition checkStartLog :: SystemLog where
  "checkStartLog =
     \<lparr>event = ''check_start'', log_message = ''Starting network time check'', log_level = info\<rparr>"

definition checkBody ::
  "nat \<Rightarrow> env \<Rightarrow> FritzClient \<Rightarrow> Config \<Rightarrow> string \<Rightarrow> string \<Rightarrow> world \<Rightarrow> (string + unit) option \<times> world" where
  "checkBody calls e fc cfg today errorDay s =
     (let s1 = logSystem s checkStartLog;
          (isConnected, s2) = testConnection e s1
      in if \<not> isConnected then (Some (Inr ()), handleFritzConnectionError e cfg errorDay s2)
         else
           (case getParentalControlData calls e fc (device_name cfg) s2 of
              (None, s3) \<Rightarrow> (None, s3)
            | (Some (Inl msg), s3) \<Rightarrow> (Some (Inl msg), s3)
            | (Some (Inr timeRemaining), s3) \<Rightarrow>
                (Some (Inr ()),
                 foldl (\<lambda>w numberConfig. processAlertsForNumber e numberConfig timeRemaining today w)
                   (logSystem s3
                      \<lparr>event = ''time_check'',
                       log_message = ''Time remaining: '' @ showInt (remainingMinutes timeRemaining) @
                         '' minutes ('' @ used timeRemaining @ ''/'' @ total timeRemaining @ '')'',
                       log_level = info\<rparr>)
                   (NumbersToSMS cfg))))"

text \<open>
  \<open>checkAndAlert\<close>: the \<open>try\<close> block and the \<open>catch\<close> block. \<open>Inr ()\<close> is the normal
  return of the promise, \<open>Inl\<close> would be an exception handed to the caller.
\<close>

definition checkAndAlert ::
  "nat \<Rightarrow> env \<Rightarrow> FritzClient \<Rightarrow> Config \<Rightarrow> string \<Rightarrow> string \<Rightarrow> world \<Rightarrow> ((string + unit) \<times> world) option" where
  "checkAndAlert calls e fc cfg today errorDay s =
     (case checkBody calls e fc cfg today errorDay s of
        (None, s1) \<Rightarrow> None
      | (Some (Inr u), s1) \<Rightarrow> Some (Inr (), s1)
      | (Some (Inl errorMessage), s1) \<Rightarrow>
          Some (Inr (),
                handleFritzConnectionError e cfg errorDay
                  (logSystem s1
                     \<lparr>event = ''check_error'', log_message = ''Error during check: '' @ errorMessage,
                      log_level = error\<rparr>)))"

text \<open>
  The scheduler runs one check after the other. An invocation is given by the bound on
  the calls of \<open>getParentalControlData\<close> and the two days the check reads.
\<close>

fun run :: "env \<Rightarrow> FritzClient \<Rightarrow> Config \<Rightarrow> (nat \<times> string \<times> string) list \<Rightarrow> world \<Rightarrow> world option" where
  "run e fc cfg [] s = Some s"
| "run e fc cfg ((calls, today, errorDay) # rest) s =
     (case checkAndAlert calls e fc cfg today errorDay s of
        None \<Rightarrow> None
      | Some (_, s1) \<Rightarrow> run e fc cfg rest s1)"

section \<open>ConfigService: validateConfig\<close>

text \<open>
  What \<open>yaml.load\<close> hands to \<open>validateConfig\<close> is untyped. Scalars are modelled by
  \<open>jsvalue\<close> (numbers restricted to integers); a field that should hold an array or an
  object is \<open>None\<close> when it is missing or holds something else.
\<close>

datatype jsvalue = JUndefined | JNull | JBoolean bool | JNumber int | JString string

fun truthy :: "jsvalue \<Rightarrow> bool" where
  "truthy JUndefined = False"
| "truthy JNull = False"
| "truthy (JBoolean b) = b"
| "truthy (JNumber n) = (n \<noteq> 0)"
| "truthy (JString str) = (str \<noteq> [])"

fun typeof :: "jsvalue \<Rightarrow> string" where
  "typeof JUndefined = ''undefined''"
| "typeof JNull = ''object''"
| "typeof (JBoolean b) = ''boolean''"
| "typeof (JNumber n) = ''number''"
| "typeof (JString str) = ''string''"

record RawMessage =
  raw_minutes :: jsvalue
  raw_message :: jsvalue

record RawNumber =
  raw_number :: jsvalue
  raw_isAdmin :: jsvalue
  raw_MessageWhenRemainingMins :: "RawMessage list option"

record RawConfig =
  raw_fritz :: "(jsvalue \<times> jsvalue) option" \<comment> \<open>\<open>url\<close> and \<open>device_name\<close>\<close>
  raw_NumbersToSMS :: "RawNumber list option"
  raw_cron_schedule :: jsvalue

definition validateMessage :: "nat \<Rightarrow> nat \<Rightarrow> RawMessage \<Rightarrow> string list" where
  "validateMessage index msgIndex msg =
     (if typeof (raw_minutes msg) \<noteq> ''number''
      then [''Invalid minutes value for NumbersToSMS['' @ showNat index @
            ''].MessageWhenRemainingMins['' @ showNat msgIndex @ '']'']
      else []) @
     (if \<not> truthy (raw_message msg)
      then [''Missing message for NumbersToSMS['' @ showNat index @
            ''].MessageWhenRemainingMins['' @ showNat msgIndex @ '']'']
      else [])"

definition validateNumber :: "nat \<Rightarrow> RawNumber \<Rightarrow> string list" where
  "validateNumber index numberConfig =
     (if \<not> truthy (raw_number numberConfig)
      then [''Missing number for NumbersToSMS['' @ showNat index @ '']''] else []) @
     (if typeof (raw_isAdmin numberConfig) \<noteq> ''boolean''
      then [''Invalid isAdmin value for NumbersToSMS['' @ showNat index @ '']''] else []) @
     (case raw_MessageWhenRemainingMins numberConfig of
        None \<Rightarrow> [''Missing or invalid MessageWhenRemainingMins for NumbersToSMS['' @ showNat index @ '']'']
      | Some msgs \<Rightarrow>
          concat (map (\<lambda>(msgIndex, msg). validateMessage index msgIndex msg)
                    (zip [0..<length msgs] msgs)))"

text \<open>The array \<open>errors\<close> that \<open>validateConfig\<close> collects; it throws unless the array is empty.\<close>

definition validateConfig :: "RawConfig \<Rightarrow> string list" where
  "validateConfig c =
     (case raw_fritz c of
        None \<Rightarrow> [''Missing fritz configuration'']
      | Some (url, dev) \<Rightarrow>
          (if \<not> truthy url then [''Missing fritz.url''] else []) @
          (if \<not> truthy dev then [''Missing fritz.device_name''] else [])) @
     (case raw_NumbersToSMS c of
        None \<Rightarrow> [''Missing or invalid NumbersToSMS array'']
      | Some ns \<Rightarrow>
          concat (map (\<lambda>(index, numberConfig). validateNumber index numberConfig)
                    (zip [0..<length ns] ns)) @
          (if \<not> list_ex (\<lambda>n. truthy (raw_isAdmin n)) ns
           then [''At least one admin number must be configured''] else [])) @
     (if \<not> truthy (raw_cron_schedule c) then [''Missing cron_schedule''] else [])"

text \<open>A typed configuration as the untyped value that \<open>yaml.load\<close> delivers for it.\<close>

definition rawOfMessage :: "MessageConfig \<Rightarrow> RawMessage" where
  "rawOfMessage m = \<lparr>raw_minutes = JNumber (minutes m), raw_message = JString (message m)\<rparr>"

definition rawOfNumber :: "NumberConfig \<Rightarrow> RawNumber" where
  "rawOfNumber n =
     \<lparr>raw_number = JString (number n), raw_isAdmin = JBoolean (isAdmin n),
      raw_MessageWhenRemainingMins = Some (map rawOfMessage (MessageWhenRemainingMins n))\<rparr>"

definition rawOfConfig :: "Config \<Rightarrow> RawConfig" where
  "rawOfConfig c =
     \<lparr>raw_fritz = Some (JString (fritz_url c), JString (device_name c)),
      raw_NumbersToSMS = Some (map rawOfNumber (NumbersToSMS c)),
      raw_cron_schedule = JString (cron_schedule c)\<rparr>"

section \<open>Notions used in the statements\<close>

text \<open>The row that \<open>logAlert\<close> is given after the SMS call \<open>c\<close> has succeeded.\<close>

definition rowOf :: "SmsCall \<Rightarrow> AlertLog" where
  "rowOf c =
     \<lparr>phone_number = sms_to c, alert_message = sms_body c, remaining_minutes = sms_key c,
      date = sms_date c\<rparr>"

text \<open>
  Check before send: each call of the list is made while the dedup query for its
  (number, day, key) is false on the table as it is then, the table growing by the row
  of every call that succeeds.
\<close>

fun gatedCalls :: "AlertLog list \<Rightarrow> SmsCall list \<Rightarrow> bool" where
  "gatedCalls db [] = True"
| "gatedCalls db (c # cs) =
     (\<not> wasAlertSentForMinutes db (sms_to c) (sms_date c) (sms_key c) \<and>
      gatedCalls (if sms_ok c then db @ [rowOf c] else db) cs)"

text \<open>
  Check before write: each row of the list is appended while the dedup query for its
  (number, day, key) is false on the table as it is then.
\<close>

fun freshRows :: "AlertLog list \<Rightarrow> AlertLog list \<Rightarrow> bool" where
  "freshRows db [] = True"
| "freshRows db (r # rs) =
     (\<not> wasAlertSentForMinutes db (phone_number r) (date r) (remaining_minutes r) \<and>
      freshRows (db @ [r]) rs)"

definition adminNumbers :: "Config \<Rightarrow> string set" where
  "adminNumbers cfg = number ` {d \<in> set (NumbersToSMS cfg). isAdmin d}"

text \<open>
  What a stretch of the program does to the SMS calls and to \<open>alert_logs\<close>: it makes the
  calls \<open>calls\<close>, every one gated and satisfying \<open>P\<close>, and appends the rows of those that
  succeeded.
\<close>

definition effect :: "(SmsCall \<Rightarrow> bool) \<Rightarrow> world \<Rightarrow> world \<Rightarrow> bool" where
  "effect P s s' =
     (\<exists>calls. sms_calls s' = sms_calls s @ calls \<and>
        alert_logs s' = alert_logs s @ map rowOf (filter sms_ok calls) \<and>
        gatedCalls (alert_logs s) calls \<and> list_all P calls)"

definition thresholdOrAdmin :: "Config \<Rightarrow> SmsCall \<Rightarrow> bool" where
  "thresholdOrAdmin cfg c =
     (sms_key c = - 1 \<longrightarrow> sms_body c = connectionMessage \<and> sms_to c \<in> adminNumbers cfg)"

definition connectionAlert :: "Config \<Rightarrow> string \<Rightarrow> SmsCall \<Rightarrow> bool" where
  "connectionAlert cfg day c =
     (sms_key c = - 1 \<and> sms_body c = connectionMessage \<and> sms_date c = day \<and>
      sms_to c \<in> adminNumbers cfg)"

text \<open>The database tables and the SMS calls are the same in both states.\<close>

text \<open>
  A device name without pattern syntax: none of its characters is one of
  \<open>\ ^ $ . * + ? ( ) [ ] { } |\<close>. The pattern of a tag, \<open><[^>]*>\<close>, as \<open>parseRegExp\<close>
  reads it.
\<close>

definition plainName :: "string \<Rightarrow> bool" where
  "plainName name = (\<forall>c \<in> set name. c \<notin> set (CHR 0x5C # ''^$.*+?()[]{}|''))"

definition tagPattern :: "regex list" where
  "tagPattern = [Chr CHR ''<'', Star (Class True ''>''), Chr CHR ''>'']"

definition sameStores :: "world \<Rightarrow> world \<Rightarrow> bool" where
  "sameStores s s' =
     (alert_logs s' = alert_logs s \<and> system_logs s' = system_logs s \<and> sms_calls s' = sms_calls s)"

definition isDataPost :: "request \<Rightarrow> bool" where
  "isDataPost r = (case r of Get p \<Rightarrow> False | Post p b \<Rightarrow> p = ''/data.lua'')"


section \<open>Example data\<close>

definition exampleNumber :: NumberConfig where
  "exampleNumber =
     \<lparr>number = ''+15550100'', isAdmin = False,
      MessageWhenRemainingMins =
        [\<lparr>minutes = 5, message = ''5 minutes left''\<rparr>, \<lparr>minutes = 30, message = ''30 minutes left''\<rparr>,
         \<lparr>minutes = 0, message = ''time is up''\<rparr>, \<lparr>minutes = 15, message = ''15 minutes left''\<rparr>]\<rparr>"

definition emptyWorld :: world where
  "emptyWorld = \<lparr>sessionId = None, requests = [], alert_logs = [], system_logs = [], sms_calls = []\<rparr>"

text \<open>Surroundings in which the router is unreachable and every SMS is accepted.\<close>

definition offlineEnv :: env where
  "offlineEnv =
     \<lparr>router = (\<lambda>k r. Failed ''Network Error''), twilio = (\<lambda>k to body. True),
      md5hex = (\<lambda>t. ''d41d8cd98f00b204e9800998ecf8427e''), encodeURIComponent = (\<lambda>t. t),
      regExpMatchOther = (\<lambda>src str. Inl (''Invalid regular expression: /'' @ src @ ''/''))\<rparr>"


definition exampleClient :: FritzClient where
  "exampleClient = \<lparr>baseUrl = ''http://fritz.box'', username = ''admin'', password = ''secret''\<rparr>"

text \<open>Pages of the router: the challenge, an accepted login, the login form, device tables.\<close>

definition challengePage :: string where
  "challengePage =
     ''<SessionInfo><SID>0000000000000000</SID><Challenge>1234567z</Challenge></SessionInfo>''"

definition sidPage :: string where
  "sidPage = ''<SessionInfo><SID>9c1a2b3c4d5e6f70</SID></SessionInfo>''"

definition loginPage :: string where
  "loginPage = ''<html><body>Please log in</body></html>''"

definition sampleHtml :: string where
  "sampleHtml =
     ''<tr><td class='' @ dq @ ''name'' @ dq @ ''>Leos-11</td><td><span title='' @ dq @
     ''00:04 of 02:10 hours'' @ dq @ ''></span></td></tr>''"

definition overusedHtml :: string where
  "overusedHtml =
     ''<tr><td>Leos-11</td><td><span title='' @ dq @ ''02:30 of 02:10 hours'' @ dq @ ''></span></td></tr>''"

definition exhaustedHtml :: string where
  "exhaustedHtml =
     ''<tr><td>Leos-11</td><td><span title='' @ dq @ ''00:04 of 02:10 hours'' @ dq @
     ''></span><span title='' @ dq @ ''Online time exhausted'' @ dq @ ''></span></td></tr>''"

text \<open>A device whose name holds parentheses, and a data page that lists it as exhausted.\<close>

definition parenHtml :: string where
  "parenHtml =
     ''<tr><td>iPhone (2)</td><td><span title='' @ dq @ ''Online time exhausted'' @ dq @
     ''></span></td></tr>''"

definition parenConfig :: Config where
  "parenConfig =
     \<lparr>fritz_url = ''http://fritz.box'', device_name = ''iPhone (2)'',
      NumbersToSMS =
        [\<lparr>number = ''+15550199'', isAdmin = True,
          MessageWhenRemainingMins = [\<lparr>minutes = 0, message = ''time is up''\<rparr>]\<rparr>],
      cron_schedule = ''*/5 * * * *''\<rparr>"

definition sessionDevicePage :: string where
  "sessionDevicePage =
     ''<tr><td>session-pc</td><td><span title='' @ dq @ ''00:04 of 02:10 hours'' @ dq @
     ''></span></td></tr>''"

text \<open>
  Routers that accept every login. The data page lists the device \<open>session-pc\<close> when
  \<open>listed k\<close> holds for the index \<open>k\<close> of the request, and is the login form otherwise.
\<close>

definition pagesRouter :: "(nat \<Rightarrow> bool) \<Rightarrow> nat \<Rightarrow> request \<Rightarrow> http" where
  "pagesRouter listed k r =
     (case r of
        Get p \<Rightarrow>
          if p = ''/login_sid.lua'' then Response 200 challengePage else Response 200 ''<html></html>''
      | Post p b \<Rightarrow>
          if p = ''/login_sid.lua'' then Response 200 sidPage
          else if listed k then Response 200 sessionDevicePage
          else Response 200 loginPage)"

text \<open>The device is listed from the \<open>n\<close>-th request on.\<close>

definition retryEnv :: "nat \<Rightarrow> env" where
  "retryEnv n = offlineEnv\<lparr>router := pagesRouter (\<lambda>k. n \<le> k)\<rparr>"

text \<open>The device is never listed.\<close>

definition stuckEnv :: env where
  "stuckEnv = offlineEnv\<lparr>router := pagesRouter (\<lambda>k. False)\<rparr>"

definition dataRequest :: request where
  "dataRequest = Post ''/data.lua'' ''xhr=1&sid=9c1a2b3c4d5e6f70&page=kidLis''"

text \<open>A router that answers every request with a page holding a session id and no challenge.\<close>

definition noChallengeEnv :: env where
  "noChallengeEnv = offlineEnv\<lparr>router := (\<lambda>k r. Response 200 sidPage)\<rparr>"

text \<open>An admin number with a rule for \<open>-1\<close> minutes.\<close>

definition sentinelNumber :: NumberConfig where
  "sentinelNumber =
     \<lparr>number = ''+15550199'', isAdmin = True,
      MessageWhenRemainingMins = [\<lparr>minutes = - 1, message = ''below zero''\<rparr>]\<rparr>"

definition sentinelConfig :: Config where
  "sentinelConfig =
     \<lparr>fritz_url = ''http://fritz.box'', device_name = ''Leos-11'', NumbersToSMS = [sentinelNumber],
      cron_schedule = ''*/5 * * * *''\<rparr>"

text \<open>The message of the parse error for a page that lacks the device \<open>session-pc\<close>.\<close>

definition notFoundMessage :: string where
  "notFoundMessage =
     parseFailed (''Device '' @ dq @ ''session-pc'' @ dq @ '' not found in parental control data'')"

text \<open>The message of the parse error for a page that lacks the device \<open>Leos-11\<close>.\<close>

definition leosNotFound :: string where
  "leosNotFound =
     parseFailed (''Device '' @ dq @ ''Leos-11'' @ dq @ '' not found in parental control data'')"

text \<open>A configuration that watches the device \<open>session-pc\<close>.\<close>

definition sessionConfig :: Config where
  "sessionConfig =
     \<lparr>fritz_url = ''http://fritz.box'', device_name = ''session-pc'',
      NumbersToSMS =
        [\<lparr>number = ''+15550100'', isAdmin = False,
          MessageWhenRemainingMins = [\<lparr>minutes = 130, message = ''about two hours left''\<rparr>]\<rparr>,
         sentinelNumber],
      cron_schedule = ''*/5 * * * *''\<rparr>"


section \<open>Selection of the threshold rule\<close>

declare showNat.simps [simp del]

lemma selectMessage_Some:
  "selectMessage db num today rem xs = Some mc \<Longrightarrow>
     mc \<in> set xs \<and> rem \<le> minutes mc \<and> \<not> wasAlertSentForMinutes db num today (minutes mc)"
  by (induction xs) (auto split: if_splits)

lemma selectMessage_None:
  "(selectMessage db num today rem xs = None) =
     (\<forall>r \<in> set xs. \<not> (rem \<le> minutes r \<and> \<not> wasAlertSentForMinutes db num today (minutes r)))"
  by (induction xs) auto

lemma selectMessage_greatest_sorted:
  "sorted (map (\<lambda>m. - minutes m) xs) \<Longrightarrow> selectMessage db num today rem xs = Some mc \<Longrightarrow>
     r \<in> set xs \<Longrightarrow> rem \<le> minutes r \<Longrightarrow> \<not> wasAlertSentForMinutes db num today (minutes r) \<Longrightarrow>
     minutes r \<le> minutes mc"
  by (induction xs) (auto split: if_splits)

lemma set_sortedMessages: "set (sortedMessages nc) = set (MessageWhenRemainingMins nc)"
  by (simp add: sortedMessages_def)

lemma sorted_sortedMessages: "sorted (map (\<lambda>m. - minutes m) (sortedMessages nc))"
  by (simp add: sortedMessages_def)

lemma processAlertsForNumber_calls:
  "sms_calls (processAlertsForNumber e nc tr today s) =
     (case selectMessage (alert_logs s) (number nc) today (remainingMinutes tr) (sortedMessages nc) of
        None \<Rightarrow> sms_calls s
      | Some mc \<Rightarrow>
          if message mc = [] then sms_calls s
          else sms_calls s @
                 [\<lparr>sms_to = number nc, sms_body = message mc, sms_date = today, sms_key = minutes mc,
                   sms_ok = twilio e (length (sms_calls s)) (number nc) (message mc)\<rparr>])"
  by (simp add: processAlertsForNumber_def sendSms_def logSystem_def logAlert_def Let_def
      split: option.splits)

text \<open>
  Claim C1. Whatever the remaining minutes, the rules of a destination and the rows of the
  database: when the loop of \<open>processAlertsForNumber\<close> takes a rule, that rule is one of the
  destination's rules, its \<open>minutes\<close> is at least the remaining minutes, the dedup query for
  (number, today, minutes) is false, and no rule with these two properties has a greater
  \<open>minutes\<close>; when it takes none, every rule with \<open>minutes >= remainingMinutes\<close> is recorded
  as sent today. One run of \<open>processAlertsForNumber\<close> (one destination entry, one invocation)
  makes at most one SMS call, and that call is for the rule taken.
\<close>

theorem C1_selects_greatest_unsent_rule:
  "(case selectMessage (alert_logs s) (number nc) today (remainingMinutes tr) (sortedMessages nc) of
      None \<Rightarrow>
        (\<forall>r \<in> set (MessageWhenRemainingMins nc).
           \<not> (remainingMinutes tr \<le> minutes r \<and>
              \<not> wasAlertSentForMinutes (alert_logs s) (number nc) today (minutes r)))
    | Some mc \<Rightarrow>
        mc \<in> set (MessageWhenRemainingMins nc) \<and> remainingMinutes tr \<le> minutes mc \<and>
        \<not> wasAlertSentForMinutes (alert_logs s) (number nc) today (minutes mc) \<and>
        (\<forall>r \<in> set (MessageWhenRemainingMins nc).
           remainingMinutes tr \<le> minutes r \<and>
           \<not> wasAlertSentForMinutes (alert_logs s) (number nc) today (minutes r)
             \<longrightarrow> minutes r \<le> minutes mc))
   \<and> (\<exists>new. sms_calls (processAlertsForNumber e nc tr today s) = sms_calls s @ new \<and> length new \<le> 1 \<and>
          (\<forall>c \<in> set new. \<exists>mc.
             selectMessage (alert_logs s) (number nc) today (remainingMinutes tr) (sortedMessages nc) = Some mc \<and>
             sms_to c = number nc \<and> sms_body c = message mc \<and> sms_key c = minutes mc))"
proof (intro conjI)
  let ?sel = "selectMessage (alert_logs s) (number nc) today (remainingMinutes tr) (sortedMessages nc)"
  show "case ?sel of
      None \<Rightarrow>
        (\<forall>r \<in> set (MessageWhenRemainingMins nc).
           \<not> (remainingMinutes tr \<le> minutes r \<and>
              \<not> wasAlertSentForMinutes (alert_logs s) (number nc) today (minutes r)))
    | Some mc \<Rightarrow>
        mc \<in> set (MessageWhenRemainingMins nc) \<and> remainingMinutes tr \<le> minutes mc \<and>
        \<not> wasAlertSentForMinutes (alert_logs s) (number nc) today (minutes mc) \<and>
        (\<forall>r \<in> set (MessageWhenRemainingMins nc).
           remainingMinutes tr \<le> minutes r \<and>
           \<not> wasAlertSentForMinutes (alert_logs s) (number nc) today (minutes r)
             \<longrightarrow> minutes r \<le> minutes mc)"
  proof (cases ?sel)
    case None
    then show ?thesis
      using selectMessage_None [of "alert_logs s" "number nc" today "remainingMinutes tr" "sortedMessages nc"]
      by (simp add: set_sortedMessages)
  next
    case (Some mc)
    from selectMessage_Some [OF Some]
    have a: "mc \<in> set (MessageWhenRemainingMins nc)" "remainingMinutes tr \<le> minutes mc"
      "\<not> wasAlertSentForMinutes (alert_logs s) (number nc) today (minutes mc)"
      by (simp_all add: set_sortedMessages)
    have b: "minutes r \<le> minutes mc"
      if "r \<in> set (MessageWhenRemainingMins nc)" "remainingMinutes tr \<le> minutes r"
        "\<not> wasAlertSentForMinutes (alert_logs s) (number nc) today (minutes r)" for r
      using selectMessage_greatest_sorted [OF sorted_sortedMessages Some] that
      by (simp add: set_sortedMessages)
    show ?thesis using Some a b by auto
  qed
next
  show "\<exists>new. sms_calls (processAlertsForNumber e nc tr today s) = sms_calls s @ new \<and> length new \<le> 1 \<and>
          (\<forall>c \<in> set new. \<exists>mc.
             selectMessage (alert_logs s) (number nc) today (remainingMinutes tr) (sortedMessages nc) = Some mc \<and>
             sms_to c = number nc \<and> sms_body c = message mc \<and> sms_key c = minutes mc)"
    by (auto simp: processAlertsForNumber_calls split: option.splits)
qed

text \<open>
  The scenario of the specification: rules 30, 15, 5, 0 and 18 minutes left with nothing
  recorded take rule 30; later the same day, with 30 recorded and 12 minutes left, rule 15.
\<close>

theorem C1_selects_greatest_unsent_rule_witness:
  "selectMessage [] ''+15550100'' ''2025-01-01'' 18 (sortedMessages exampleNumber)
     = Some \<lparr>minutes = 30, message = ''30 minutes left''\<rparr> \<and>
   \<lparr>minutes = 30, message = ''30 minutes left''\<rparr> \<in> set (MessageWhenRemainingMins exampleNumber) \<and>
   \<not> wasAlertSentForMinutes [] ''+15550100'' ''2025-01-01'' 30 \<and>
   length (sms_calls (processAlertsForNumber offlineEnv exampleNumber
       \<lparr>used = ''01:52'', total = ''02:10'', remainingMinutes = 18, isExhausted = False\<rparr>
       ''2025-01-01'' emptyWorld)) = 1 \<and>
   selectMessage
     [\<lparr>phone_number = ''+15550100'', alert_message = ''30 minutes left'', remaining_minutes = 30,
       date = ''2025-01-01''\<rparr>]
     ''+15550100'' ''2025-01-01'' 12 (sortedMessages exampleNumber)
     = Some \<lparr>minutes = 15, message = ''15 minutes left''\<rparr>"
  using C1_selects_greatest_unsent_rule [where s = emptyWorld and nc = exampleNumber
      and today = "''2025-01-01''" and e = offlineEnv
      and tr = "\<lparr>used = ''01:52'', total = ''02:10'', remainingMinutes = 18, isExhausted = False\<rparr>"]
  by (simp add: exampleNumber_def emptyWorld_def sortedMessages_def wasAlertSentForMinutes_def alertCount_def
      processAlertsForNumber_calls)

section \<open>Lemmas on the parser\<close>

lemma includesStr_prefix: "prefix t s \<Longrightarrow> includesStr s t"
  by (cases s) auto

lemma includesStr_append: "includesStr (a @ t @ b) t"
  by (induction a) (simp_all add: includesStr_prefix)

lemma isDigit_not_colon: "isDigit c \<Longrightarrow> c \<noteq> CHR '':''"
  by (auto simp: isDigit_def)

lemma isLabel_2:
  assumes "isLabel 2 l"
  shows "\<exists>a b c d. l = [a, b, CHR '':'', c, d] \<and> isDigit a \<and> isDigit b \<and> isDigit c \<and> isDigit d"
proof -
  from assms have "length l = 5" by (simp add: isLabel_def)
  then obtain a b x c d where e: "l = [a, b, x, c, d]"
    by (auto simp: length_Suc_conv eval_nat_numeral)
  with assms show ?thesis
    by (simp add: isLabel_def eval_nat_numeral)
qed

lemma isLabel_1:
  assumes "isLabel 1 l"
  shows "\<exists>b c d. l = [b, CHR '':'', c, d] \<and> isDigit b \<and> isDigit c \<and> isDigit d"
proof -
  from assms have "length l = 4" by (simp add: isLabel_def)
  then obtain b x c d where e: "l = [b, x, c, d]"
    by (auto simp: length_Suc_conv eval_nat_numeral)
  with assms show ?thesis
    by (simp add: isLabel_def eval_nat_numeral)
qed

lemma matchLabel_Some: "matchLabel n s = Some (l, r) \<Longrightarrow> isLabel n l"
  by (auto simp: matchLabel_def Let_def split: if_splits)

lemma timeSpanAt_Some:
  assumes "timeSpanAt n s = Some m"
  shows "\<exists>u t. m = [''<span title='' @ dq @ u @ '' of '' @ t @ '' hours'' @ dq @ ''>'', u, t] \<and>
           isLabel 2 u \<and> isLabel n t"
  using assms
  by (auto simp: timeSpanAt_def split: option.splits prod.splits dest: matchLabel_Some)

lemma searchTimeSpan_Some:
  "searchTimeSpan n s = Some m \<Longrightarrow> \<exists>s'. timeSpanAt n s' = Some m"
  by (induction s) (auto split: option.splits)

lemma parseTime_2:
  assumes "isDigit a" "isDigit b" "isDigit c" "isDigit d"
  shows "parseTime [a, b, CHR '':'', c, d] = Some (decimal [a, b] * 60 + decimal [c, d])"
  using assms by (simp add: parseTime_def Number_def isDigit_not_colon)

lemma parseTime_1:
  assumes "isDigit b" "isDigit c" "isDigit d"
  shows "parseTime [b, CHR '':'', c, d] = Some (decimal [b] * 60 + decimal [c, d])"
  using assms by (simp add: parseTime_def Number_def isDigit_not_colon)

lemma includesStr_subset: "includesStr s t \<Longrightarrow> set t \<subseteq> set s"
proof (induction s)
  case Nil
  then show ?case by simp
next
  case (Cons c s)
  then have "prefix t (c # s) \<or> includesStr s t" by simp
  then show ?case
  proof
    assume "prefix t (c # s)"
    then show ?thesis by (rule set_mono_prefix)
  next
    assume "includesStr s t"
    then show ?thesis using Cons.IH by auto
  qed
qed

lemma span_not_exhausted:
  assumes "\<forall>c \<in> set u. c \<noteq> CHR ''x''" "\<forall>c \<in> set t. c \<noteq> CHR ''x''"
  shows "\<not> includesStr (''<span title='' @ dq @ u @ '' of '' @ t @ '' hours'' @ dq @ ''>'') ''exhausted''"
proof
  assume "includesStr (''<span title='' @ dq @ u @ '' of '' @ t @ '' hours'' @ dq @ ''>'') ''exhausted''"
  from includesStr_subset [OF this] have "CHR ''x'' \<in> set (''<span title='' @ dq @ u @ '' of '' @ t @ '' hours'' @ dq @ ''>'')"
    by simp
  with assms show False by (auto simp: dq_def)
qed

lemma firstSpanMatch_time:
  "\<not> includesStr w ''exhausted'' \<Longrightarrow> calculateRemainingMinutes u t = Some r \<Longrightarrow>
     firstSpanMatch (Some [w, u, t] # rest) = Inr \<lparr>used = u, total = t, remainingMinutes = r, isExhausted = (r \<le> 0)\<rparr>"
  by simp

lemma firstSpanMatch_timeSpan:
  assumes "timeSpanAt n s = Some m" and "n = 2 \<or> n = 1"
  shows "\<exists>a b c d hs p q.
           isDigit a \<and> isDigit b \<and> isDigit c \<and> isDigit d \<and> list_all isDigit hs \<and> length hs = n \<and>
           isDigit p \<and> isDigit q \<and>
           firstSpanMatch (Some m # rest) =
             Inr \<lparr>used = [a, b, CHR '':'', c, d], total = hs @ [CHR '':'', p, q],
                  remainingMinutes =
                    max 0 ((decimal hs * 60 + decimal [p, q]) - (decimal [a, b] * 60 + decimal [c, d])),
                  isExhausted =
                    (max 0 ((decimal hs * 60 + decimal [p, q]) - (decimal [a, b] * 60 + decimal [c, d])) \<le> 0)\<rparr>"
proof -
  from timeSpanAt_Some [OF assms(1)] obtain u t where
    m: "m = [''<span title='' @ dq @ u @ '' of '' @ t @ '' hours'' @ dq @ ''>'', u, t]"
    and u: "isLabel 2 u" and t: "isLabel n t" by blast
  from isLabel_2 [OF u] obtain a b c d where
    u': "u = [a, b, CHR '':'', c, d]" and du: "isDigit a" "isDigit b" "isDigit c" "isDigit d" by blast
  have ux: "\<forall>c \<in> set u. c \<noteq> CHR ''x''" using u' du by (auto simp: isDigit_def)
  have pu: "parseTime u = Some (decimal [a, b] * 60 + decimal [c, d])"
    unfolding u' using du by (rule parseTime_2)
  from assms(2) show ?thesis
  proof
    assume n: "n = 2"
    from isLabel_2 [of t] t n obtain e f p q where
      t': "t = [e, f, CHR '':'', p, q]" and dt: "isDigit e" "isDigit f" "isDigit p" "isDigit q" by blast
    have tx: "\<forall>c \<in> set t. c \<noteq> CHR ''x''" using t' dt by (auto simp: isDigit_def)
    have pt: "parseTime t = Some (decimal [e, f] * 60 + decimal [p, q])"
      unfolding t' using dt by (rule parseTime_2)
    have calc: "calculateRemainingMinutes u t =
        Some (max 0 ((decimal [e, f] * 60 + decimal [p, q]) - (decimal [a, b] * 60 + decimal [c, d])))"
      by (simp add: calculateRemainingMinutes_def pu pt)
    have "firstSpanMatch (Some m # rest) =
        Inr \<lparr>used = u, total = t,
             remainingMinutes = max 0 ((decimal [e, f] * 60 + decimal [p, q]) - (decimal [a, b] * 60 + decimal [c, d])),
             isExhausted = (max 0 ((decimal [e, f] * 60 + decimal [p, q]) - (decimal [a, b] * 60 + decimal [c, d])) \<le> 0)\<rparr>"
      unfolding m by (rule firstSpanMatch_time [OF span_not_exhausted [OF ux tx] calc])
    then have "isDigit a \<and> isDigit b \<and> isDigit c \<and> isDigit d \<and> list_all isDigit [e, f] \<and> length [e, f] = n \<and>
           isDigit p \<and> isDigit q \<and>
           firstSpanMatch (Some m # rest) =
             Inr \<lparr>used = [a, b, CHR '':'', c, d], total = [e, f] @ [CHR '':'', p, q],
                  remainingMinutes =
                    max 0 ((decimal [e, f] * 60 + decimal [p, q]) - (decimal [a, b] * 60 + decimal [c, d])),
                  isExhausted =
                    (max 0 ((decimal [e, f] * 60 + decimal [p, q]) - (decimal [a, b] * 60 + decimal [c, d])) \<le> 0)\<rparr>"
      using du dt n by (simp add: u' t')
    then show ?thesis by blast
  next
    assume n: "n = 1"
    from isLabel_1 [of t] t n obtain f p q where
      t': "t = [f, CHR '':'', p, q]" and dt: "isDigit f" "isDigit p" "isDigit q" by blast
    have tx: "\<forall>c \<in> set t. c \<noteq> CHR ''x''" using t' dt by (auto simp: isDigit_def)
    have pt: "parseTime t = Some (decimal [f] * 60 + decimal [p, q])"
      unfolding t' using dt by (rule parseTime_1)
    have calc: "calculateRemainingMinutes u t =
        Some (max 0 ((decimal [f] * 60 + decimal [p, q]) - (decimal [a, b] * 60 + decimal [c, d])))"
      by (simp add: calculateRemainingMinutes_def pu pt)
    have "firstSpanMatch (Some m # rest) =
        Inr \<lparr>used = u, total = t,
             remainingMinutes = max 0 ((decimal [f] * 60 + decimal [p, q]) - (decimal [a, b] * 60 + decimal [c, d])),
             isExhausted = (max 0 ((decimal [f] * 60 + decimal [p, q]) - (decimal [a, b] * 60 + decimal [c, d])) \<le> 0)\<rparr>"
      unfolding m by (rule firstSpanMatch_time [OF span_not_exhausted [OF ux tx] calc])
    then have "isDigit a \<and> isDigit b \<and> isDigit c \<and> isDigit d \<and> list_all isDigit [f] \<and> length [f] = n \<and>
           isDigit p \<and> isDigit q \<and>
           firstSpanMatch (Some m # rest) =
             Inr \<lparr>used = [a, b, CHR '':'', c, d], total = [f] @ [CHR '':'', p, q],
                  remainingMinutes =
                    max 0 ((decimal [f] * 60 + decimal [p, q]) - (decimal [a, b] * 60 + decimal [c, d])),
                  isExhausted =
                    (max 0 ((decimal [f] * 60 + decimal [p, q]) - (decimal [a, b] * 60 + decimal [c, d])) \<le> 0)\<rparr>"
      using du dt n by (simp add: u' t')
    then show ?thesis by blast
  qed
qed

lemma exhaustedSpan_word: "includesStr exhaustedSpan ''exhausted''"
  by (simp add: exhaustedSpan_def dq_def)

lemma parse_result:
  assumes "parseParentalControlData e htmlData deviceName = Inr tr"
  shows "tr = exhaustedResult \<or>
     (\<exists>a b c d hs p q.
        isDigit a \<and> isDigit b \<and> isDigit c \<and> isDigit d \<and> list_all isDigit hs \<and>
        (length hs = 2 \<or> length hs = 1) \<and> isDigit p \<and> isDigit q \<and>
        tr = \<lparr>used = [a, b, CHR '':'', c, d], total = hs @ [CHR '':'', p, q],
               remainingMinutes =
                 max 0 ((decimal hs * 60 + decimal [p, q]) - (decimal [a, b] * 60 + decimal [c, d])),
               isExhausted =
                 (max 0 ((decimal hs * 60 + decimal [p, q]) - (decimal [a, b] * 60 + decimal [c, d])) \<le> 0)\<rparr>)"
proof -
  from assms obtain rest where
    r: "firstSpanMatch [searchExhausted rest, searchTimeSpan 2 rest, searchTimeSpan 1 rest] = Inr tr"
    by (auto simp: parseParentalControlData_def Let_def split: option.splits sum.splits)
  show ?thesis
  proof (cases "searchExhausted rest")
    case (Some m)
    then have "m = [exhaustedSpan]" by (auto simp: searchExhausted_def split: if_splits)
    with r Some exhaustedSpan_word show ?thesis by simp
  next
    case None
    note ex = None
    show ?thesis
    proof (cases "searchTimeSpan 2 rest")
      case (Some m)
      from searchTimeSpan_Some [OF Some] obtain s' where "timeSpanAt 2 s' = Some m" by blast
      from firstSpanMatch_timeSpan [OF this, of "[searchTimeSpan 1 rest]"] r ex Some
      show ?thesis by auto
    next
      case None
      note two = None
      show ?thesis
      proof (cases "searchTimeSpan 1 rest")
        case (Some m)
        from searchTimeSpan_Some [OF Some] obtain s' where "timeSpanAt 1 s' = Some m" by blast
        from firstSpanMatch_timeSpan [OF this, of "[]"] r ex two Some
        show ?thesis by auto
      next
        case None
        with r ex two show ?thesis by simp
      qed
    qed
  qed
qed

lemma parse_nonneg:
  "parseParentalControlData e htmlData deviceName = Inr tr \<Longrightarrow> 0 \<le> remainingMinutes tr"
  by (drule parse_result) (auto simp: exhaustedResult_def)

section \<open>The exhausted marker\<close>

text \<open>
  The pattern of a device name without pattern syntax: the tag pattern, the characters
  of the name, the tag pattern.
\<close>

lemma step_plain:
  assumes "c \<notin> set (CHR 0x5C # ''^$.*+?()[]{}|'')" "mode st = Normal" "quantifiable st"
  shows "step st c = Some (st\<lparr>terms := Chr c # terms st\<rparr>)"
  using assms by (cases st) (simp add: step_def atom_def)

lemma parseFrom_plain:
  assumes "plainName name" "mode st = Normal" "quantifiable st"
  shows "parseFrom st (name @ rest) = parseFrom (st\<lparr>terms := rev (map Chr name) @ terms st\<rparr>) rest"
  using assms
proof (induction name arbitrary: st)
  case Nil
  then show ?case by simp
next
  case (Cons c name)
  then have "step st c = Some (st\<lparr>terms := Chr c # terms st\<rparr>)"
    by (intro step_plain) (simp_all add: plainName_def)
  moreover have "plainName name" using Cons.prems(1) by (simp add: plainName_def)
  ultimately show ?case using Cons.IH [of "st\<lparr>terms := Chr c # terms st\<rparr>"] Cons.prems by simp
qed

lemma parseFrom_tag:
  assumes "mode st = Normal"
  shows "parseFrom st (''<[^>]*>'' @ rest) =
     parseFrom (st\<lparr>terms := rev tagPattern @ terms st, quantifiable := True\<rparr>) rest"
  using assms by (cases st) (simp add: step_def atom_def classCharacter_def quantified_def tagPattern_def)

lemma parseRegExp_plain:
  assumes "plainName name"
  shows "parseRegExp (''<[^>]*>'' @ name @ ''<[^>]*>'') = Some (seqOf (tagPattern @ map Chr name @ tagPattern))"
proof -
  let ?s0 = "\<lparr>outer = [], alts = [], terms = [], quantifiable = False, mode = Normal\<rparr>"
  have "parseFrom ?s0 (''<[^>]*>'' @ name @ ''<[^>]*>'' @ [])
      = Some \<lparr>outer = [], alts = [], terms = rev tagPattern @ rev (map Chr name) @ rev tagPattern,
             quantifiable = True, mode = Normal\<rparr>"
    by (subst parseFrom_tag, simp, subst parseFrom_plain [OF assms], simp, simp, subst parseFrom_tag, simp, simp)
  then show ?thesis
    by (simp add: parseRegExp_def disjunction_def)
qed


lemma iterate_self: "s \<in> set (iterate n f s)"
  by (cases n) simp_all

lemma oneChar_Cons: "oneChar p (x # xs) = (if p x then [xs] else [])"
  by (simp add: oneChar_def)

lemma iterate_oneChar:
  assumes "\<forall>x \<in> set t. p x" "length t \<le> n"
  shows "s \<in> set (iterate n (oneChar p) (t @ s))"
  using assms
proof (induction t arbitrary: n)
  case Nil
  then show ?case by (simp add: iterate_self)
next
  case (Cons x t)
  then obtain m where n: "n = Suc m" by (cases n) auto
  have "s \<in> set (iterate m (oneChar p) (t @ s))"
    using Cons n by simp
  then show ?case using Cons.prems n by (simp add: oneChar_Cons)
qed

lemma rests_star_class:
  assumes "CHR ''>'' \<notin> set t"
  shows "s \<in> set (rests (Star (Class True ''>'')) (t @ s))"
proof -
  have "rests (Class True ''>'') = oneChar (\<lambda>x. x \<noteq> CHR ''>'')"
    by (rule ext) simp
  moreover have "s \<in> set (iterate (length (t @ s)) (oneChar (\<lambda>x. x \<noteq> CHR ''>'')) (t @ s))"
    using assms by (intro iterate_oneChar) auto
  ultimately show ?thesis by simp
qed

lemma rests_Seq: "u \<in> set (rests a s) \<Longrightarrow> t \<in> set (rests b u) \<Longrightarrow> t \<in> set (rests (Seq a b) s)"
  by auto

lemma rests_Chr: "rests (Seq (Chr c) r) (c # s) = rests r s"
  by (simp add: oneChar_Cons)

lemma rests_tag:
  assumes "CHR ''>'' \<notin> set t" "u \<in> set (rests r s)" "seqOf rs = r"
  shows "u \<in> set (rests (seqOf (tagPattern @ rs)) (''<'' @ t @ ''>'' @ s))"
proof -
  have "u \<in> set (rests (Seq (Chr CHR ''>'') r) (''>'' @ s))"
    using assms(2) by (simp only: append_Cons append_Nil rests_Chr)
  with rests_star_class [OF assms(1), of "''>'' @ s"]
  have "u \<in> set (rests (Seq (Star (Class True ''>'')) (Seq (Chr CHR ''>'') r)) (t @ ''>'' @ s))"
    by (rule rests_Seq)
  then have "u \<in> set (rests (Seq (Chr CHR ''<'') (Seq (Star (Class True ''>'')) (Seq (Chr CHR ''>'') r)))
        (''<'' @ t @ ''>'' @ s))"
    by (simp only: append_Cons append_Nil rests_Chr)
  then show ?thesis using assms(3) by (simp add: seqOf_def tagPattern_def)
qed

lemma rests_name: "rests (seqOf (map Chr name @ rs)) (name @ s) = rests (seqOf rs) s"
  by (induction name) (simp_all add: seqOf_def oneChar_Cons)

lemma rests_device:
  assumes "CHR ''>'' \<notin> set t1"
  shows "rests (seqOf (tagPattern @ map Chr name @ tagPattern))
           (''<'' @ t1 @ ''>'' @ name @ ''<'' @ t2 @ ''>'' @ s) \<noteq> []"
proof -
  have "CHR ''>'' \<in> set (t2 @ ''>'' @ s)" by simp
  from split_list_first [OF this]
  obtain a b where t2: "t2 @ ''>'' @ s = a @ ''>'' @ b" "CHR ''>'' \<notin> set a"
    by auto
  have "b \<in> set (rests (seqOf (tagPattern @ [])) (''<'' @ a @ ''>'' @ b))"
    by (rule rests_tag [OF t2(2), where r = Empty]) (simp_all add: seqOf_def)
  then have "b \<in> set (rests (seqOf (map Chr name @ tagPattern)) (name @ ''<'' @ t2 @ ''>'' @ s))"
    using t2(1) by (simp add: rests_name)
  then have "b \<in> set (rests (seqOf (tagPattern @ map Chr name @ tagPattern))
           (''<'' @ t1 @ ''>'' @ name @ ''<'' @ t2 @ ''>'' @ s))"
    by (rule rests_tag [OF assms]) simp
  then show ?thesis by auto
qed


lemma matchAt_Some: "rests r s \<noteq> [] \<Longrightarrow> \<exists>m q. matchAt r s = Some m \<and> s = m @ q"
  by (cases "rests r s") (auto simp: matchAt_def intro: append_take_drop_id [symmetric])

lemma regexMatch_Some:
  assumes "rests r x \<noteq> []"
  shows "\<exists>m p q. regexMatch r (pre @ x) = Some m \<and> pre @ x = p @ m @ q \<and> length p \<le> length pre"
proof (induction pre)
  case Nil
  from matchAt_Some [OF assms] obtain m q where m: "matchAt r x = Some m" "x = m @ q" by blast
  have "regexMatch r x = Some m" using m(1) by (cases x) simp_all
  with m(2) show ?case by (intro exI [of _ m] exI [of _ "[]"] exI [of _ q]) simp
next
  case (Cons c pre)
  then obtain m p q where ih: "regexMatch r (pre @ x) = Some m" "pre @ x = p @ m @ q"
    "length p \<le> length pre" by blast
  show ?case
  proof (cases "matchAt r (c # pre @ x)")
    case None
    then have "regexMatch r ((c # pre) @ x) = Some m" using ih(1) by simp
    with ih(2,3) show ?thesis by (intro exI [of _ m] exI [of _ "c # p"] exI [of _ q]) simp
  next
    case (Some m')
    then have "m' = take (length m') (c # pre @ x)"
      by (auto simp: matchAt_def split: list.splits)
    then have "(c # pre) @ x = [] @ m' @ drop (length m') (c # pre @ x)"
      by (metis append_Nil append_Cons append_take_drop_id)
    moreover have "regexMatch r ((c # pre) @ x) = Some m'" using Some by simp
    ultimately show ?thesis by (intro exI [of _ m'] exI [of _ "[]"] exI) auto
  qed
qed

lemma indexOf_le: "\<exists>k. indexOf (p @ m @ q) m = Some k \<and> k \<le> length p"
proof (induction p)
  case Nil
  have "prefix m (m @ q)" by simp
  then show ?case by (cases "m @ q") auto
next
  case (Cons c p)
  then show ?case by auto
qed

text \<open>
  For a device name without pattern syntax the exhausted marker takes precedence. Let
  the document hold the name as the text of an element (an opening tag, the name, a
  further tag) and, anywhere behind it, the marker
  \<open><span title="Online time exhausted">\<close>. Then \<open>parseParentalControlData\<close> returns the
  exhausted result, whatever else the document holds before, between and behind them,
  time labels included.
\<close>

lemma exhausted_marker_takes_precedence:
  assumes "plainName deviceName"
    and "htmlData = pre @ ''<'' @ t1 @ ''>'' @ deviceName @ ''<'' @ t2 @ ''>'' @ mid @ exhaustedSpan @ post"
    and "CHR ''>'' \<notin> set t1"
  shows "parseParentalControlData e htmlData deviceName = Inr exhaustedResult"
proof -
  let ?x = "''<'' @ t1 @ ''>'' @ deviceName @ ''<'' @ t2 @ ''>'' @ mid @ exhaustedSpan @ post"
  let ?r = "seqOf (tagPattern @ map Chr deviceName @ tagPattern)"
  have "rests ?r ?x \<noteq> []" using assms(3) by (rule rests_device)
  from regexMatch_Some [OF this, of pre] obtain m p q where
    m: "regexMatch ?r htmlData = Some m" "htmlData = p @ m @ q" "length p \<le> length pre"
    unfolding assms(2) by blast
  have d: "deviceMatch e deviceName htmlData = Inr (Some m)"
    unfolding deviceMatch_def parseRegExp_plain [OF assms(1)] using m(1) by simp
  obtain k where k: "indexOf htmlData m = Some k" "k \<le> length p"
    using indexOf_le [of p m q] m(2) by auto
  have "substringFrom htmlData (indexOf htmlData m) = (drop k pre @ ''<'' @ t1 @ ''>'' @ deviceName @ ''<'' @ t2 @ ''>'' @ mid) @ exhaustedSpan @ post"
    using k m(3) by (simp add: substringFrom_def assms(2))
  moreover have "includesStr ((drop k pre @ ''<'' @ t1 @ ''>'' @ deviceName @ ''<'' @ t2 @ ''>'' @ mid) @ exhaustedSpan @ post)
          exhaustedSpan"
    by (rule includesStr_append)
  ultimately have "searchExhausted (substringFrom htmlData (indexOf htmlData m)) = Some [exhaustedSpan]"
    by (simp add: searchExhausted_def)
  then show ?thesis
    using d exhaustedSpan_word by (simp add: parseParentalControlData_def Let_def)
qed

text \<open>
  Claim C7 does not hold of the code for every device name. \<open>parseParentalControlData\<close>
  builds the device pattern from the name as it stands, so a name is read as pattern
  syntax, and \<open>validateConfig\<close> accepts every non-empty name. In the pattern of the name
  \<open>iPhone (2)\<close> the parentheses are a group around \<open>2\<close>: the pattern matches the element
  text \<open>iPhone 2\<close> and does not match \<open>iPhone (2)\<close>. On a data page that lists the device
  \<open>iPhone (2)\<close> followed by the marker \<open><span title="Online time exhausted">\<close> the parser
  throws \<open>Device "iPhone (2)" not found\<close>, where the claim has the exhausted result. The
  same page shape with the name \<open>Leos-11\<close> gives the exhausted result, time labels in
  front of the marker or not.
\<close>

theorem C7_device_name_read_as_pattern:
  "validateConfig (rawOfConfig parenConfig) = [] \<and>
   device_name parenConfig = ''iPhone (2)'' \<and>
   parenHtml =
     ''<tr>'' @ ''<td>'' @ ''iPhone (2)'' @ ''</td>'' @ ''<td>'' @ exhaustedSpan @ ''</span></td></tr>'' \<and>
   parseRegExp (''<[^>]*>'' @ ''iPhone (2)'' @ ''<[^>]*>'') =
     Some (seqOf (tagPattern @ map Chr ''iPhone '' @ [Seq (Chr CHR ''2'') Empty] @ tagPattern)) \<and>
   deviceMatch e ''iPhone (2)'' ''<td>iPhone 2</td>'' = Inr (Some ''<td>iPhone 2</td>'') \<and>
   deviceMatch e ''iPhone (2)'' parenHtml = Inr None \<and>
   parseParentalControlData e parenHtml ''iPhone (2)''
     = Inl (parseFailed (''Device '' @ dq @ ''iPhone (2)'' @ dq @ '' not found in parental control data'')) \<and>
   searchTimeSpan 2 exhaustedHtml
     = Some [''<span title='' @ dq @ ''00:04 of 02:10 hours'' @ dq @ ''>'', ''00:04'', ''02:10''] \<and>
   parseParentalControlData e exhaustedHtml ''Leos-11'' = Inr exhaustedResult \<and>
   exhaustedResult = \<lparr>used = ''N/A'', total = ''N/A'', remainingMinutes = 0, isExhausted = True\<rparr>"
proof (intro conjI)
  show "validateConfig (rawOfConfig parenConfig) = []"
    by code_simp
  show "device_name parenConfig = ''iPhone (2)''"
    by (simp add: parenConfig_def)
  show "parenHtml =
     ''<tr>'' @ ''<td>'' @ ''iPhone (2)'' @ ''</td>'' @ ''<td>'' @ exhaustedSpan @ ''</span></td></tr>''"
    by code_simp
  show "parseRegExp (''<[^>]*>'' @ ''iPhone (2)'' @ ''<[^>]*>'') =
     Some (seqOf (tagPattern @ map Chr ''iPhone '' @ [Seq (Chr CHR ''2'') Empty] @ tagPattern))"
    by code_simp
  show "deviceMatch e ''iPhone (2)'' ''<td>iPhone 2</td>'' = Inr (Some ''<td>iPhone 2</td>'')"
    by code_simp
  show "deviceMatch e ''iPhone (2)'' parenHtml = Inr None"
    by code_simp
  show "parseParentalControlData e parenHtml ''iPhone (2)''
     = Inl (parseFailed (''Device '' @ dq @ ''iPhone (2)'' @ dq @ '' not found in parental control data''))"
    by code_simp
  show "searchTimeSpan 2 exhaustedHtml
     = Some [''<span title='' @ dq @ ''00:04 of 02:10 hours'' @ dq @ ''>'', ''00:04'', ''02:10'']"
    by code_simp
  show "parseParentalControlData e exhaustedHtml ''Leos-11'' = Inr exhaustedResult"
    by code_simp
  show "exhaustedResult = \<lparr>used = ''N/A'', total = ''N/A'', remainingMinutes = 0, isExhausted = True\<rparr>"
    by (simp add: exhaustedResult_def)
qed

section \<open>Minutes of a time marker\<close>

text \<open>
  Claim C8. When \<open>parseParentalControlData\<close> returns a result other than the exhausted
  one, it matched a time marker: \<open>used\<close> is a label \<open>HH:MM\<close>, \<open>total\<close> a label
  \<open>HH:MM\<close> or \<open>H:MM\<close>, each label is worth its hours times 60 plus its minutes (both read
  in decimal), \<open>remainingMinutes\<close> is \<open>max 0 (total - used)\<close> and \<open>isExhausted\<close> holds
  exactly when \<open>remainingMinutes <= 0\<close>. A row with the marker
  \<open>00:04 of 02:10 hours\<close> gives 126 minutes, not exhausted.
\<close>

theorem C8_time_marker_minutes:
  "(parseParentalControlData e htmlData deviceName = Inr tr \<and> tr \<noteq> exhaustedResult
      \<longrightarrow>
      (\<exists>a b c d hs p q.
         list_all isDigit ([a, b, c, d] @ hs @ [p, q]) \<and> (length hs = 2 \<or> length hs = 1) \<and>
         used tr = [a, b, CHR '':'', c, d] \<and> total tr = hs @ [CHR '':'', p, q] \<and>
         remainingMinutes tr =
           max 0 ((decimal hs * 60 + decimal [p, q]) - (decimal [a, b] * 60 + decimal [c, d])) \<and>
         isExhausted tr = (remainingMinutes tr \<le> 0))) \<and>
   decimal [x, y] = 10 * digitValue x + digitValue y \<and> decimal [y] = digitValue y \<and>
   parseParentalControlData e sampleHtml ''Leos-11''
     = Inr \<lparr>used = ''00:04'', total = ''02:10'', remainingMinutes = 126, isExhausted = False\<rparr>"
proof (intro conjI impI)
  assume a: "parseParentalControlData e htmlData deviceName = Inr tr \<and> tr \<noteq> exhaustedResult"
  then have "parseParentalControlData e htmlData deviceName = Inr tr" "tr \<noteq> exhaustedResult"
    by simp_all
  from parse_result [OF this(1)] this(2)
  obtain a b c d hs p q where
    "isDigit a" "isDigit b" "isDigit c" "isDigit d" "list_all isDigit hs"
    "length hs = 2 \<or> length hs = 1" "isDigit p" "isDigit q"
    "tr = \<lparr>used = [a, b, CHR '':'', c, d], total = hs @ [CHR '':'', p, q],
           remainingMinutes =
             max 0 ((decimal hs * 60 + decimal [p, q]) - (decimal [a, b] * 60 + decimal [c, d])),
           isExhausted =
             (max 0 ((decimal hs * 60 + decimal [p, q]) - (decimal [a, b] * 60 + decimal [c, d])) \<le> 0)\<rparr>"
    by blast
  then have "list_all isDigit ([a, b, c, d] @ hs @ [p, q]) \<and> (length hs = 2 \<or> length hs = 1) \<and>
         used tr = [a, b, CHR '':'', c, d] \<and> total tr = hs @ [CHR '':'', p, q] \<and>
         remainingMinutes tr =
           max 0 ((decimal hs * 60 + decimal [p, q]) - (decimal [a, b] * 60 + decimal [c, d])) \<and>
         isExhausted tr = (remainingMinutes tr \<le> 0)"
    by simp
  then show "\<exists>a b c d hs p q.
         list_all isDigit ([a, b, c, d] @ hs @ [p, q]) \<and> (length hs = 2 \<or> length hs = 1) \<and>
         used tr = [a, b, CHR '':'', c, d] \<and> total tr = hs @ [CHR '':'', p, q] \<and>
         remainingMinutes tr =
           max 0 ((decimal hs * 60 + decimal [p, q]) - (decimal [a, b] * 60 + decimal [c, d])) \<and>
         isExhausted tr = (remainingMinutes tr \<le> 0)"
    by blast
next
  show "decimal [x, y] = 10 * digitValue x + digitValue y" by (simp add: decimal_def)
next
  show "decimal [y] = digitValue y" by (simp add: decimal_def)
next
  show "parseParentalControlData e sampleHtml ''Leos-11''
     = Inr \<lparr>used = ''00:04'', total = ''02:10'', remainingMinutes = 126, isExhausted = False\<rparr>"
    by code_simp
qed

lemma overused_parse:
  "parseParentalControlData offlineEnv overusedHtml ''Leos-11''
     = Inr \<lparr>used = ''02:30'', total = ''02:10'', remainingMinutes = 0, isExhausted = True\<rparr>"
  by code_simp

text \<open>A row where the router reports more used than allowed: \<open>02:30 of 02:10 hours\<close>.\<close>

theorem C8_time_marker_minutes_witness:
  "parseParentalControlData offlineEnv overusedHtml ''Leos-11''
     = Inr \<lparr>used = ''02:30'', total = ''02:10'', remainingMinutes = 0, isExhausted = True\<rparr> \<and>
   \<lparr>used = ''02:30'', total = ''02:10'', remainingMinutes = 0, isExhausted = True\<rparr> \<noteq> exhaustedResult \<and>
   decimal ''02'' * 60 + decimal ''10'' = 130 \<and> decimal ''02'' * 60 + decimal ''30'' = 150 \<and>
   max (0::int) (130 - 150) = 0"
  using C8_time_marker_minutes [where e = offlineEnv and deviceName = "''Leos-11''"
      and htmlData = overusedHtml
      and tr = "\<lparr>used = ''02:30'', total = ''02:10'', remainingMinutes = 0, isExhausted = True\<rparr>"]
    overused_parse
  by (simp add: exhaustedResult_def decimal_def digitValue_def)

section \<open>Authentication\<close>

lemma matchTag_sidPage: "matchTag ''SID'' sidPage = Some ''9c1a2b3c4d5e6f70''"
  by (simp add: sidPage_def tagAt_def isLineTerminator_def)

lemma matchTag_sidPage_challenge: "matchTag ''Challenge'' sidPage = None"
  by (simp add: sidPage_def tagAt_def isLineTerminator_def)

lemma matchTag_challengePage: "matchTag ''Challenge'' challengePage = Some ''1234567z''"
  by (simp add: challengePage_def tagAt_def isLineTerminator_def)

text \<open>
  Claim C9, as the code has it. \<open>getSessionId\<close> throws exactly when the challenge request
  fails in transport, or its answer holds no \<open><Challenge>\<close> element, or the login request
  fails in transport, or its answer holds no \<open><SID>\<close> element, or that element holds
  sixteen zeros. Otherwise it returns the content of the \<open><SID>\<close> element of the login
  answer and keeps it as the session.
\<close>

theorem C9_getSessionId_fails_exactly_when:
  "isl (fst (getSessionId e fc s)) =
     ((\<exists>msg. router e (length (requests s)) (Get ''/login_sid.lua'') = Failed msg) \<or>
      (\<exists>st body. router e (length (requests s)) (Get ''/login_sid.lua'') = Response st body \<and>
         (matchTag ''Challenge'' body = None \<or>
          (\<exists>challenge. matchTag ''Challenge'' body = Some challenge \<and>
             ((\<exists>msg. router e (Suc (length (requests s))) (loginRequest e fc challenge) = Failed msg) \<or>
              (\<exists>st2 body2.
                 router e (Suc (length (requests s))) (loginRequest e fc challenge) = Response st2 body2 \<and>
                 (matchTag ''SID'' body2 = None \<or> matchTag ''SID'' body2 = Some ''0000000000000000'')))))))
   \<and> (\<forall>sid. fst (getSessionId e fc s) = Inr sid \<longrightarrow>
         sessionId (snd (getSessionId e fc s)) = Some sid \<and>
         (\<exists>st body challenge st2 body2.
            router e (length (requests s)) (Get ''/login_sid.lua'') = Response st body \<and>
            matchTag ''Challenge'' body = Some challenge \<and>
            router e (Suc (length (requests s))) (loginRequest e fc challenge) = Response st2 body2 \<and>
            matchTag ''SID'' body2 = Some sid))"
  by (auto simp: getSessionId_def httpRequest_def Let_def
      split: http.splits option.splits if_splits)

lemma getSessionId_pagesRouter:
  "router e = pagesRouter listed \<Longrightarrow>
   getSessionId e fc s =
     (Inr ''9c1a2b3c4d5e6f70'',
      s\<lparr>requests := requests s @ [Get ''/login_sid.lua'', loginRequest e fc ''1234567z''],
        sessionId := Some ''9c1a2b3c4d5e6f70''\<rparr>)"
  by (simp add: getSessionId_def httpRequest_def pagesRouter_def loginRequest_def
      matchTag_challengePage matchTag_sidPage)

lemma router_retryEnv: "router (retryEnv n) = pagesRouter (\<lambda>k. n \<le> k)"
  by (simp add: retryEnv_def)

lemma router_stuckEnv: "router stuckEnv = pagesRouter (\<lambda>k. False)"
  by (simp add: stuckEnv_def)

text \<open>A login that the router accepts.\<close>

theorem C9_getSessionId_fails_exactly_when_witness:
  "fst (getSessionId (retryEnv 0) exampleClient emptyWorld) = Inr ''9c1a2b3c4d5e6f70'' \<and>
   sessionId (snd (getSessionId (retryEnv 0) exampleClient emptyWorld)) = Some ''9c1a2b3c4d5e6f70'' \<and>
   \<not> isl (fst (getSessionId (retryEnv 0) exampleClient emptyWorld))"
  using C9_getSessionId_fails_exactly_when [where e = "retryEnv 0" and fc = exampleClient and s = emptyWorld]
  by (simp add: getSessionId_pagesRouter [OF router_retryEnv])

text \<open>
  The claim as stated lists the all-zero or missing session id and the transport errors
  only. Here the router answers every request, the login request included, with a page
  that carries the session id \<open>9c1a2b3c4d5e6f70\<close>; yet \<open>getSessionId\<close> throws after its
  first request, because the answer has no challenge.
\<close>

theorem C9_missing_challenge_counterexample:
  "getSessionId noChallengeEnv exampleClient emptyWorld =
     (Inl (authFailed ''Could not extract challenge from Fritz router''),
      emptyWorld\<lparr>requests := [Get ''/login_sid.lua'']\<rparr>) \<and>
   router noChallengeEnv 0 (Get ''/login_sid.lua'') = Response 200 sidPage \<and>
   router noChallengeEnv 1 (loginRequest noChallengeEnv exampleClient ''1234567z'') = Response 200 sidPage \<and>
   matchTag ''SID'' sidPage = Some ''9c1a2b3c4d5e6f70''"
  by (simp add: getSessionId_def httpRequest_def noChallengeEnv_def offlineEnv_def emptyWorld_def
      matchTag_sidPage matchTag_sidPage_challenge)

section \<open>Recording a sent alert\<close>




section \<open>Negative thresholds and the key of the connection alert\<close>

lemma concat_map_zip_Nil:
  assumes "length js = length xs" and "\<And>j x. (f j x = []) = P x"
  shows "(concat (map (\<lambda>(j, x). f j x) (zip js xs)) = []) = (\<forall>x \<in> set xs. P x)"
  using assms(1) by (induction js xs rule: list_induct2) (simp_all add: assms(2))

lemma validateMessage_raw:
  "(validateMessage i j (rawOfMessage m) = []) = (message m \<noteq> [])"
  by (simp add: validateMessage_def rawOfMessage_def)

lemma validateNumber_raw:
  "(validateNumber i (rawOfNumber n) = []) =
     (number n \<noteq> [] \<and> (\<forall>m \<in> set (MessageWhenRemainingMins n). message m \<noteq> []))"
proof -
  have "(concat (map (\<lambda>(j, m). validateMessage i j m)
           (zip [0..<length (MessageWhenRemainingMins n)] (map rawOfMessage (MessageWhenRemainingMins n)))) = [])
        = (\<forall>m \<in> set (MessageWhenRemainingMins n). message m \<noteq> [])"
    using concat_map_zip_Nil [of "[0..<length (MessageWhenRemainingMins n)]" "MessageWhenRemainingMins n"
        "\<lambda>j m. validateMessage i j (rawOfMessage m)" "\<lambda>m. message m \<noteq> []"]
    by (simp add: validateMessage_raw zip_map2 case_prod_beta)
  then show ?thesis
    by (simp add: validateNumber_def rawOfNumber_def)
qed

lemma validateConfig_raw:
  "(validateConfig (rawOfConfig c) = []) =
     (fritz_url c \<noteq> [] \<and> device_name c \<noteq> [] \<and> cron_schedule c \<noteq> [] \<and>
      (\<exists>n \<in> set (NumbersToSMS c). isAdmin n) \<and>
      (\<forall>n \<in> set (NumbersToSMS c).
         number n \<noteq> [] \<and> (\<forall>m \<in> set (MessageWhenRemainingMins n). message m \<noteq> [])))"
proof -
  have "(concat (map (\<lambda>(j, x). validateNumber j x)
           (zip [0..<length (NumbersToSMS c)] (map rawOfNumber (NumbersToSMS c)))) = [])
        = (\<forall>x \<in> set (NumbersToSMS c).
             number x \<noteq> [] \<and> (\<forall>m \<in> set (MessageWhenRemainingMins x). message m \<noteq> []))"
    using concat_map_zip_Nil [of "[0..<length (NumbersToSMS c)]" "NumbersToSMS c"
        "\<lambda>j x. validateNumber j (rawOfNumber x)"
        "\<lambda>x. number x \<noteq> [] \<and> (\<forall>m \<in> set (MessageWhenRemainingMins x). message m \<noteq> [])"]
    by (simp add: validateNumber_raw zip_map2 case_prod_beta)
  then show ?thesis
    by (auto simp: validateConfig_def rawOfConfig_def list_ex_iff rawOfNumber_def)
qed

text \<open>
  Claim C10. \<open>validateConfig\<close> asks of \<open>minutes\<close> only that it is a number: a rule passes
  exactly when its \<open>minutes\<close> has type number and its message is truthy, and a typed
  configuration passes whatever the \<open>minutes\<close> of its rules are, negative ones included.
  For a number with a rule of \<open>-1\<close> minutes the rule and the connection alert share the
  dedup key: after \<open>handleFritzConnectionError\<close> has recorded its alert for the number on
  a day, the dedup query reports the rule as sent that day and the loop does not take it;
  and after \<open>processAlertsForNumber\<close> has recorded the rule, the dedup query for key
  \<open>-1\<close> is true and the connection alert is not sent to that number that day.
\<close>

theorem C10_negative_minutes_share_sentinel_key:
  "((validateMessage i j msg = []) = (typeof (raw_minutes msg) = ''number'' \<and> truthy (raw_message msg))) \<and>
   (n < 0 \<longrightarrow> typeof (raw_minutes (rawOfMessage \<lparr>minutes = n, message = txt\<rparr>)) = ''number'') \<and>
   ((validateConfig (rawOfConfig c) = []) =
      (fritz_url c \<noteq> [] \<and> device_name c \<noteq> [] \<and> cron_schedule c \<noteq> [] \<and>
       (\<exists>d \<in> set (NumbersToSMS c). isAdmin d) \<and>
       (\<forall>d \<in> set (NumbersToSMS c).
          number d \<noteq> [] \<and> (\<forall>m \<in> set (MessageWhenRemainingMins d). message m \<noteq> [])))) \<and>
   (minutes r = - 1 \<longrightarrow> \<not> wasAlertSentForMinutes (alert_logs s) (number d) day (- 1) \<longrightarrow>
      twilio e (length (sms_calls s)) (number d) connectionMessage \<longrightarrow>
      wasAlertSentForMinutes (alert_logs (alertAdmin e day s d)) (number d) day (minutes r) \<and>
      selectMessage (alert_logs (alertAdmin e day s d)) (number d) day rem [r] = None) \<and>
   (minutes r = - 1 \<longrightarrow> message r \<noteq> [] \<longrightarrow>
      selectMessage (alert_logs s) (number d) day (remainingMinutes tr) (sortedMessages d) = Some r \<longrightarrow>
      twilio e (length (sms_calls s)) (number d) (message r) \<longrightarrow>
      wasAlertSentForMinutes (alert_logs (processAlertsForNumber e d tr day s)) (number d) day (- 1) \<and>
      alertAdmin e day (processAlertsForNumber e d tr day s) d = processAlertsForNumber e d tr day s)"
proof (intro conjI impI)
  show "(validateMessage i j msg = []) = (typeof (raw_minutes msg) = ''number'' \<and> truthy (raw_message msg))"
    by (simp add: validateMessage_def)
next
  show "typeof (raw_minutes (rawOfMessage \<lparr>minutes = n, message = txt\<rparr>)) = ''number''"
    by (simp add: rawOfMessage_def)
next
  show "(validateConfig (rawOfConfig c) = []) =
      (fritz_url c \<noteq> [] \<and> device_name c \<noteq> [] \<and> cron_schedule c \<noteq> [] \<and>
       (\<exists>d \<in> set (NumbersToSMS c). isAdmin d) \<and>
       (\<forall>d \<in> set (NumbersToSMS c).
          number d \<noteq> [] \<and> (\<forall>m \<in> set (MessageWhenRemainingMins d). message m \<noteq> [])))"
    by (rule validateConfig_raw)
next
  assume a: "minutes r = - 1" "\<not> wasAlertSentForMinutes (alert_logs s) (number d) day (- 1)"
    "twilio e (length (sms_calls s)) (number d) connectionMessage"
  then show w: "wasAlertSentForMinutes (alert_logs (alertAdmin e day s d)) (number d) day (minutes r)"
    by (simp add: alertAdmin_def sendSms_def logAlert_def wasAlertSentForMinutes_def alertCount_def)
  then show "selectMessage (alert_logs (alertAdmin e day s d)) (number d) day rem [r] = None"
    by simp
next
  assume a: "minutes r = - 1" "message r \<noteq> []"
    "selectMessage (alert_logs s) (number d) day (remainingMinutes tr) (sortedMessages d) = Some r"
    "twilio e (length (sms_calls s)) (number d) (message r)"
  then show w: "wasAlertSentForMinutes (alert_logs (processAlertsForNumber e d tr day s)) (number d) day (- 1)"
    by (simp add: processAlertsForNumber_def sendSms_def logAlert_def logSystem_def
        wasAlertSentForMinutes_def alertCount_def)
  then show "alertAdmin e day (processAlertsForNumber e d tr day s) d = processAlertsForNumber e d tr day s"
    by (simp add: alertAdmin_def)
qed

text \<open>
  The admin number \<open>+15550199\<close> with its rule for \<open>-1\<close> minutes. (The loop takes such a
  rule only when the remaining minutes are at most \<open>-1\<close>, which the parser never reports.)
\<close>

theorem C10_negative_minutes_share_sentinel_key_witness:
  "validateConfig (rawOfConfig sentinelConfig) = [] \<and>
   minutes \<lparr>minutes = - 1, message = ''below zero''\<rparr> = - 1 \<and>
   \<not> wasAlertSentForMinutes (alert_logs emptyWorld) (number sentinelNumber) ''2025-01-01'' (- 1) \<and>
   twilio offlineEnv (length (sms_calls emptyWorld)) (number sentinelNumber) connectionMessage \<and>
   wasAlertSentForMinutes (alert_logs (alertAdmin offlineEnv ''2025-01-01'' emptyWorld sentinelNumber))
     (number sentinelNumber) ''2025-01-01'' (- 1) \<and>
   selectMessage (alert_logs (alertAdmin offlineEnv ''2025-01-01'' emptyWorld sentinelNumber))
     (number sentinelNumber) ''2025-01-01'' (- 5) [\<lparr>minutes = - 1, message = ''below zero''\<rparr>] = None \<and>
   selectMessage (alert_logs emptyWorld) (number sentinelNumber) ''2025-01-01'' (- 1)
     (sortedMessages sentinelNumber) = Some \<lparr>minutes = - 1, message = ''below zero''\<rparr> \<and>
   alertAdmin offlineEnv ''2025-01-01''
     (processAlertsForNumber offlineEnv sentinelNumber
        \<lparr>used = ''02:11'', total = ''02:10'', remainingMinutes = - 1, isExhausted = True\<rparr>
        ''2025-01-01'' emptyWorld) sentinelNumber
     = processAlertsForNumber offlineEnv sentinelNumber
        \<lparr>used = ''02:11'', total = ''02:10'', remainingMinutes = - 1, isExhausted = True\<rparr>
        ''2025-01-01'' emptyWorld"
proof -
  have v: "validateConfig (rawOfConfig sentinelConfig) = []"
    by (simp add: validateConfig_raw sentinelConfig_def sentinelNumber_def)
  have m: "minutes \<lparr>minutes = - 1, message = ''below zero''\<rparr> = - 1" by simp
  have t: "message \<lparr>minutes = - 1, message = ''below zero''\<rparr> \<noteq> []" by simp
  have n: "\<not> wasAlertSentForMinutes (alert_logs emptyWorld) (number sentinelNumber) ''2025-01-01'' (- 1)"
    by (simp add: emptyWorld_def wasAlertSentForMinutes_def alertCount_def)
  have k: "twilio offlineEnv (length (sms_calls emptyWorld)) (number sentinelNumber) connectionMessage"
    by (simp add: offlineEnv_def)
  have k2: "twilio offlineEnv (length (sms_calls emptyWorld)) (number sentinelNumber)
      (message \<lparr>minutes = - 1, message = ''below zero''\<rparr>)"
    by (simp add: offlineEnv_def)
  have sel: "selectMessage (alert_logs emptyWorld) (number sentinelNumber) ''2025-01-01''
      (remainingMinutes \<lparr>used = ''02:11'', total = ''02:10'', remainingMinutes = - 1, isExhausted = True\<rparr>)
      (sortedMessages sentinelNumber) = Some \<lparr>minutes = - 1, message = ''below zero''\<rparr>"
    by (simp add: emptyWorld_def sentinelNumber_def sortedMessages_def wasAlertSentForMinutes_def
        alertCount_def)
  note inst = C10_negative_minutes_share_sentinel_key [where r = "\<lparr>minutes = - 1, message = ''below zero''\<rparr>"
      and s = emptyWorld and d = sentinelNumber and day = "''2025-01-01''" and e = offlineEnv
      and rem = "- 5" and c = sentinelConfig
      and tr = "\<lparr>used = ''02:11'', total = ''02:10'', remainingMinutes = - 1, isExhausted = True\<rparr>"]
  from inst m n k have a: "wasAlertSentForMinutes (alert_logs (alertAdmin offlineEnv ''2025-01-01'' emptyWorld sentinelNumber))
     (number sentinelNumber) ''2025-01-01'' (- 1)"
    "selectMessage (alert_logs (alertAdmin offlineEnv ''2025-01-01'' emptyWorld sentinelNumber))
     (number sentinelNumber) ''2025-01-01'' (- 5) [\<lparr>minutes = - 1, message = ''below zero''\<rparr>] = None"
    by simp_all
  from inst m t sel k2 have b: "alertAdmin offlineEnv ''2025-01-01''
     (processAlertsForNumber offlineEnv sentinelNumber
        \<lparr>used = ''02:11'', total = ''02:10'', remainingMinutes = - 1, isExhausted = True\<rparr>
        ''2025-01-01'' emptyWorld) sentinelNumber
     = processAlertsForNumber offlineEnv sentinelNumber
        \<lparr>used = ''02:11'', total = ''02:10'', remainingMinutes = - 1, isExhausted = True\<rparr>
        ''2025-01-01'' emptyWorld"
    by simp
  from sel have sel': "selectMessage (alert_logs emptyWorld) (number sentinelNumber) ''2025-01-01'' (- 1)
     (sortedMessages sentinelNumber) = Some \<lparr>minutes = - 1, message = ''below zero''\<rparr>" by simp
  show ?thesis
    by (intro conjI) (rule v m n k a sel' b)+
qed

section \<open>Effects of the alert manager on the tables and the SMS calls\<close>

lemma gatedCalls_append:
  "gatedCalls db (a @ b) = (gatedCalls db a \<and> gatedCalls (db @ map rowOf (filter sms_ok a)) b)"
  by (induction a arbitrary: db) auto

lemma effect_refl: "effect P s s"
  by (simp add: effect_def)

lemma effect_same: "sms_calls s' = sms_calls s \<Longrightarrow> alert_logs s' = alert_logs s \<Longrightarrow> effect P s s'"
  by (simp add: effect_def)

lemma effect_trans:
  assumes "effect P s s1" and "effect P s1 s2"
  shows "effect P s s2"
proof -
  from assms(1) obtain a where a: "sms_calls s1 = sms_calls s @ a"
    "alert_logs s1 = alert_logs s @ map rowOf (filter sms_ok a)" "gatedCalls (alert_logs s) a"
    "list_all P a"
    unfolding effect_def by blast
  from assms(2) obtain b where b: "sms_calls s2 = sms_calls s1 @ b"
    "alert_logs s2 = alert_logs s1 @ map rowOf (filter sms_ok b)" "gatedCalls (alert_logs s1) b"
    "list_all P b"
    unfolding effect_def by blast
  have "sms_calls s2 = sms_calls s @ (a @ b)" using a b by simp
  moreover have "alert_logs s2 = alert_logs s @ map rowOf (filter sms_ok (a @ b))" using a b by simp
  moreover have "gatedCalls (alert_logs s) (a @ b)" using a b by (simp add: gatedCalls_append)
  moreover have "list_all P (a @ b)" using a b by simp
  ultimately show ?thesis unfolding effect_def by blast
qed

lemma effect_processAlertsForNumber:
  assumes "0 \<le> remainingMinutes tr"
  shows "effect (thresholdOrAdmin cfg) s (processAlertsForNumber e nc tr today s)"
proof (cases "selectMessage (alert_logs s) (number nc) today (remainingMinutes tr) (sortedMessages nc)")
  case None
  then show ?thesis by (simp add: processAlertsForNumber_def effect_refl)
next
  case (Some mc)
  from selectMessage_Some [OF Some] have q: "remainingMinutes tr \<le> minutes mc"
    "\<not> wasAlertSentForMinutes (alert_logs s) (number nc) today (minutes mc)" by simp_all
  show ?thesis
  proof (cases "message mc = []")
    case True
    then show ?thesis using Some by (simp add: processAlertsForNumber_def effect_refl)
  next
    case False
    let ?c = "\<lparr>sms_to = number nc, sms_body = message mc, sms_date = today, sms_key = minutes mc,
               sms_ok = twilio e (length (sms_calls s)) (number nc) (message mc)\<rparr>"
    have "sms_calls (processAlertsForNumber e nc tr today s) = sms_calls s @ [?c]"
      using Some False by (simp add: processAlertsForNumber_calls)
    moreover have "alert_logs (processAlertsForNumber e nc tr today s) = alert_logs s @ map rowOf (filter sms_ok [?c])"
      using Some False
      by (simp add: processAlertsForNumber_def sendSms_def logSystem_def logAlert_def Let_def rowOf_def)
    moreover have "gatedCalls (alert_logs s) [?c]" using q by simp
    moreover have "list_all (thresholdOrAdmin cfg) [?c]"
      using q assms by (simp add: thresholdOrAdmin_def)
    ultimately show ?thesis unfolding effect_def by blast
  qed
qed

lemma effect_alertAdmin:
  assumes "admin \<in> set (NumbersToSMS cfg)" "isAdmin admin"
  shows "effect (connectionAlert cfg today) s (alertAdmin e today s admin)"
proof (cases "wasAlertSentForMinutes (alert_logs s) (number admin) today (- 1)")
  case True
  then show ?thesis by (simp add: alertAdmin_def effect_refl)
next
  case False
  let ?c = "\<lparr>sms_to = number admin, sms_body = connectionMessage, sms_date = today, sms_key = - 1,
             sms_ok = twilio e (length (sms_calls s)) (number admin) connectionMessage\<rparr>"
  have "sms_calls (alertAdmin e today s admin) = sms_calls s @ [?c]"
    using False by (simp add: alertAdmin_def sendSms_def logAlert_def Let_def)
  moreover have "alert_logs (alertAdmin e today s admin) = alert_logs s @ map rowOf (filter sms_ok [?c])"
    using False by (simp add: alertAdmin_def sendSms_def logAlert_def Let_def rowOf_def)
  moreover have "gatedCalls (alert_logs s) [?c]" using False by simp
  moreover have "list_all (connectionAlert cfg today) [?c]"
    using assms by (auto simp: adminNumbers_def connectionAlert_def)
  ultimately show ?thesis unfolding effect_def by blast
qed

lemma effect_foldl:
  assumes "\<And>w x. x \<in> set xs \<Longrightarrow> effect P w (f w x)"
  shows "effect P s (foldl f s xs)"
  using assms
proof (induction xs arbitrary: s)
  case Nil
  then show ?case by (simp add: effect_refl)
next
  case (Cons x xs)
  have "effect P s (f s x)" using Cons.prems by simp
  moreover have "effect P (f s x) (foldl f (f s x) xs)" using Cons by simp
  ultimately show ?case using effect_trans by simp
qed

lemma effect_handleFritzConnectionError:
  "effect (connectionAlert cfg today) s (handleFritzConnectionError e cfg today s)"
proof -
  have "effect (connectionAlert cfg today) s (foldl (alertAdmin e today) s (filter isAdmin (NumbersToSMS cfg)))"
    by (rule effect_foldl) (simp add: effect_alertAdmin)
  moreover have "effect (connectionAlert cfg today) (foldl (alertAdmin e today) s (filter isAdmin (NumbersToSMS cfg)))
      (handleFritzConnectionError e cfg today s)"
    by (rule effect_same) (simp_all add: handleFritzConnectionError_def logSystem_def)
  ultimately show ?thesis by (rule effect_trans)
qed

lemma effect_mono: "(\<And>c. P c \<Longrightarrow> Q c) \<Longrightarrow> effect P s s' \<Longrightarrow> effect Q s s'"
  unfolding effect_def by (auto simp: list_all_iff)

lemma effect_handle_weak:
  "effect (thresholdOrAdmin cfg) s (handleFritzConnectionError e cfg today s)"
  by (rule effect_mono [OF _ effect_handleFritzConnectionError])
     (simp add: connectionAlert_def thresholdOrAdmin_def)

lemma sameStores_refl: "sameStores s s"
  by (simp add: sameStores_def)

lemma sameStores_trans: "sameStores s s1 \<Longrightarrow> sameStores s1 s2 \<Longrightarrow> sameStores s s2"
  by (simp add: sameStores_def)

lemma httpRequest_stores: "sameStores s (snd (httpRequest e s r))"
  by (simp add: httpRequest_def sameStores_def)

lemma getSessionId_stores: "sameStores s (snd (getSessionId e fc s))"
  by (simp add: getSessionId_def httpRequest_def sameStores_def Let_def
      split: http.splits option.splits)

lemma fetchAndParse_stores: "sameStores s (snd (fetchAndParse e fc deviceName s))"
proof -
  have a: "sameStores s (snd (if sessionId s = None \<or> sessionId s = Some [] then getSessionId e fc s else (Inr [], s)))"
    by (simp add: getSessionId_stores sameStores_refl)
  show ?thesis
    using a
    by (auto simp: fetchAndParse_def httpRequest_def sameStores_def Let_def
        split: prod.splits sum.splits http.splits)
qed

lemma fetchAndParse_nonneg:
  "fst (fetchAndParse e fc deviceName s) = Inr tr \<Longrightarrow> 0 \<le> remainingMinutes tr"
  by (auto simp: fetchAndParse_def Let_def split: prod.splits sum.splits http.splits if_splits
      dest: parse_nonneg)

lemma getParentalControlData_stores:
  "sameStores s (snd (getParentalControlData calls e fc deviceName s))"
proof (induction calls arbitrary: s)
  case 0
  then show ?case by (simp add: sameStores_refl)
next
  case (Suc calls)
  obtain r s1 where f: "fetchAndParse e fc deviceName s = (r, s1)" by (cases "fetchAndParse e fc deviceName s")
  have s1: "sameStores s s1" using fetchAndParse_stores [of s e fc deviceName] f by simp
  show ?case
  proof (cases r)
    case (Inr tr)
    then show ?thesis using f s1 by simp
  next
    case (Inl msg)
    show ?thesis
    proof (cases "includesStr msg ''session''")
      case False
      then show ?thesis using f s1 Inl by simp
    next
      case True
      obtain a s2 where g: "getSessionId e fc (s1\<lparr>sessionId := None\<rparr>) = (a, s2)"
        by (cases "getSessionId e fc (s1\<lparr>sessionId := None\<rparr>)")
      have "sameStores (s1\<lparr>sessionId := None\<rparr>) s2"
        using getSessionId_stores [of "s1\<lparr>sessionId := None\<rparr>" e fc] g by simp
      then have s2: "sameStores s s2" using s1 by (simp add: sameStores_def)
      show ?thesis
      proof (cases a)
        case (Inl m2)
        then show ?thesis using f g s2 \<open>r = Inl msg\<close> True by simp
      next
        case (Inr sid)
        have "sameStores s2 (snd (getParentalControlData calls e fc deviceName s2))" by (rule Suc.IH)
        then have "sameStores s (snd (getParentalControlData calls e fc deviceName s2))"
          using s2 by (rule sameStores_trans [rotated])
        then show ?thesis using f g \<open>r = Inl msg\<close> True Inr by simp
      qed
    qed
  qed
qed

lemma getParentalControlData_nonneg:
  "fst (getParentalControlData calls e fc deviceName s) = Some (Inr tr) \<Longrightarrow> 0 \<le> remainingMinutes tr"
proof (induction calls arbitrary: s)
  case 0
  then show ?case by simp
next
  case (Suc calls)
  obtain r s1 where f: "fetchAndParse e fc deviceName s = (r, s1)" by (cases "fetchAndParse e fc deviceName s")
  show ?case
  proof (cases r)
    case (Inr tr')
    then have "tr' = tr" using Suc.prems f by simp
    then show ?thesis using fetchAndParse_nonneg [of e fc deviceName s tr] f Inr by simp
  next
    case (Inl msg)
    show ?thesis
    proof (cases "includesStr msg ''session''")
      case False
      then show ?thesis using Suc.prems f Inl by simp
    next
      case True
      obtain a s2 where g: "getSessionId e fc (s1\<lparr>sessionId := None\<rparr>) = (a, s2)"
        by (cases "getSessionId e fc (s1\<lparr>sessionId := None\<rparr>)")
      show ?thesis
      proof (cases a)
        case (Inl m2)
        then show ?thesis using Suc.prems f g \<open>r = Inl msg\<close> True by simp
      next
        case (Inr sid)
        then have "fst (getParentalControlData calls e fc deviceName s2) = Some (Inr tr)"
          using Suc.prems f g \<open>r = Inl msg\<close> True by simp
        then show ?thesis by (rule Suc.IH)
      qed
    qed
  qed
qed

lemma testConnection_stores: "sameStores s (snd (testConnection e s))"
  by (simp add: testConnection_def httpRequest_def sameStores_def Let_def)

lemma effect_stores: "sameStores s s' \<Longrightarrow> effect P s s'"
  by (simp add: sameStores_def effect_same)

lemma effect_logSystem: "effect P s (logSystem s l)"
  by (simp add: effect_same logSystem_def)

lemma checkAndAlert_effect:
  assumes "checkAndAlert calls e fc cfg today errorDay s = Some (r, s')"
  shows "r = Inr () \<and> effect (thresholdOrAdmin cfg) s s'"
proof -
  let ?s1 = "logSystem s checkStartLog"
  obtain c s2 where t: "testConnection e ?s1 = (c, s2)" by (cases "testConnection e ?s1")
  have e2: "effect (thresholdOrAdmin cfg) s s2"
    using effect_trans [OF effect_logSystem effect_stores [OF testConnection_stores [of ?s1 e]]] t by simp
  show ?thesis
  proof (cases c)
    case False
    then have "s' = handleFritzConnectionError e cfg errorDay s2" "r = Inr ()"
      using assms t by (simp_all add: checkAndAlert_def checkBody_def)
    then show ?thesis using effect_trans [OF e2 effect_handle_weak] by simp
  next
    case True
    obtain g s3 where g: "getParentalControlData calls e fc (device_name cfg) s2 = (g, s3)"
      by (cases "getParentalControlData calls e fc (device_name cfg) s2")
    have e3: "effect (thresholdOrAdmin cfg) s s3"
      using effect_trans [OF e2 effect_stores [OF getParentalControlData_stores [of s2 calls e fc "device_name cfg"]]] g
      by simp
    show ?thesis
    proof (cases g)
      case None
      then show ?thesis using assms t True g by (simp add: checkAndAlert_def checkBody_def)
    next
      case (Some res)
      show ?thesis
      proof (cases res)
        case (Inl msg)
        then have "s' = handleFritzConnectionError e cfg errorDay
            (logSystem s3 \<lparr>event = ''check_error'', log_message = ''Error during check: '' @ msg, log_level = error\<rparr>)"
          "r = Inr ()"
          using assms t True g Some by (simp_all add: checkAndAlert_def checkBody_def)
        then show ?thesis
          using effect_trans [OF effect_trans [OF e3 effect_logSystem] effect_handle_weak]
          by simp
      next
        case (Inr tr)
        have nn: "0 \<le> remainingMinutes tr"
          using getParentalControlData_nonneg [of calls e fc "device_name cfg" s2 tr] g Some Inr by simp
        let ?s4 = "logSystem s3 \<lparr>event = ''time_check'',
                       log_message = ''Time remaining: '' @ showInt (remainingMinutes tr) @
                         '' minutes ('' @ used tr @ ''/'' @ total tr @ '')'',
                       log_level = info\<rparr>"
        have "s' = foldl (\<lambda>w numberConfig. processAlertsForNumber e numberConfig tr today w) ?s4 (NumbersToSMS cfg)"
          "r = Inr ()"
          using assms t True g Some Inr by (simp_all add: checkAndAlert_def checkBody_def)
        moreover have "effect (thresholdOrAdmin cfg) ?s4 (foldl (\<lambda>w numberConfig. processAlertsForNumber e numberConfig tr today w) ?s4 (NumbersToSMS cfg))"
          by (rule effect_foldl) (simp add: effect_processAlertsForNumber [OF nn])
        ultimately show ?thesis
          using effect_trans [OF effect_trans [OF e3 effect_logSystem]] by simp
      qed
    qed
  qed
qed

lemma run_effect:
  "run e fc cfg invs s = Some s' \<Longrightarrow> effect (thresholdOrAdmin cfg) s s'"
proof (induction invs arbitrary: s)
  case Nil
  then show ?case by (simp add: effect_refl)
next
  case (Cons i invs)
  obtain calls today errorDay where i: "i = (calls, today, errorDay)" by (cases i)
  from Cons.prems i obtain r s1 where c: "checkAndAlert calls e fc cfg today errorDay s = Some (r, s1)"
    and r: "run e fc cfg invs s1 = Some s'"
    by (auto split: option.splits)
  from checkAndAlert_effect [OF c] Cons.IH [OF r] show ?case
    by (blast intro: effect_trans)
qed

lemma alertCount_snoc:
  "alertCount (db @ [r]) p d k =
     alertCount db p d k + (if phone_number r = p \<and> date r = d \<and> remaining_minutes r = k then 1 else 0)"
  by (simp add: alertCount_def)

lemma wasAlertSent_snoc:
  "wasAlertSentForMinutes (db @ [r]) p d k =
     (wasAlertSentForMinutes db p d k \<or> (phone_number r = p \<and> date r = d \<and> remaining_minutes r = k))"
  by (auto simp: wasAlertSentForMinutes_def alertCount_snoc)

lemma gatedCalls_once:
  "gatedCalls db calls \<Longrightarrow>
     (wasAlertSentForMinutes db p d k \<longrightarrow>
        filter (\<lambda>c. sms_to c = p \<and> sms_date c = d \<and> sms_key c = k) calls = []) \<and>
     length (filter (\<lambda>c. sms_ok c \<and> sms_to c = p \<and> sms_date c = d \<and> sms_key c = k) calls) \<le> 1"
proof (induction calls arbitrary: db)
  case Nil
  then show ?case by simp
next
  case (Cons c cs)
  let ?db = "if sms_ok c then db @ [rowOf c] else db"
  from Cons.prems have g: "\<not> wasAlertSentForMinutes db (sms_to c) (sms_date c) (sms_key c)"
    and g': "gatedCalls ?db cs" by simp_all
  note ih = Cons.IH [OF g']
  have mono: "wasAlertSentForMinutes db p d k \<Longrightarrow> wasAlertSentForMinutes ?db p d k"
    by (simp add: wasAlertSent_snoc)
  show ?case
  proof (cases "sms_ok c \<and> sms_to c = p \<and> sms_date c = d \<and> sms_key c = k")
    case True
    then have "wasAlertSentForMinutes ?db p d k" by (simp add: wasAlertSent_snoc rowOf_def)
    with ih have "filter (\<lambda>c. sms_to c = p \<and> sms_date c = d \<and> sms_key c = k) cs = []" by simp
    then have "filter (\<lambda>c. sms_ok c \<and> sms_to c = p \<and> sms_date c = d \<and> sms_key c = k) cs = []"
      by (auto simp: filter_empty_conv)
    with True g show ?thesis by auto
  next
    case False
    with ih mono g show ?thesis by auto
  qed
qed

lemma gatedCalls_freshRows:
  "gatedCalls db calls \<Longrightarrow> freshRows db (map rowOf (filter sms_ok calls))"
  by (induction calls arbitrary: db) (auto simp: rowOf_def)

lemma freshRows_invariant:
  "freshRows db rows \<Longrightarrow> (\<forall>p d k. alertCount db p d k \<le> 1) \<Longrightarrow>
     (\<forall>p d k. alertCount (db @ rows) p d k \<le> 1)"
proof (induction rows arbitrary: db)
  case Nil
  then show ?case by simp
next
  case (Cons r rows)
  from Cons.prems(1) have n: "alertCount db (phone_number r) (date r) (remaining_minutes r) = 0"
    and f: "freshRows (db @ [r]) rows"
    by (simp_all add: wasAlertSentForMinutes_def)
  have "\<forall>p d k. alertCount (db @ [r]) p d k \<le> 1"
    using Cons.prems(2) n by (auto simp: alertCount_snoc)
  from Cons.IH [OF f this] show ?case by simp
qed

lemma alertAdmin_system_logs: "system_logs (alertAdmin e today s admin) = system_logs s"
  by (simp add: alertAdmin_def sendSms_def logAlert_def Let_def)

lemma foldl_alertAdmin_system_logs: "system_logs (foldl (alertAdmin e today) s xs) = system_logs s"
  by (induction xs arbitrary: s) (simp_all add: alertAdmin_system_logs)

lemma handle_system_logs:
  "map event (system_logs (handleFritzConnectionError e cfg today s))
     = map event (system_logs s) @ [''fritz_connection_error'']"
  by (simp add: handleFritzConnectionError_def logSystem_def foldl_alertAdmin_system_logs)

section \<open>The retry after a session error\<close>

lemma parse_loginPage: "parseParentalControlData e loginPage ''session-pc'' = Inl notFoundMessage"
  by code_simp

lemma notFound_session: "includesStr notFoundMessage ''session''"
  by code_simp

lemma getSessionId_stuck:
  "\<exists>s2. getSessionId stuckEnv fc s = (Inr ''9c1a2b3c4d5e6f70'', s2) \<and>
        sessionId s2 = Some ''9c1a2b3c4d5e6f70'' \<and>
        length (filter isDataPost (requests s2)) = length (filter isDataPost (requests s))"
  by (simp add: getSessionId_pagesRouter [OF router_stuckEnv] isDataPost_def loginRequest_def)

lemma dataPost_stuck:
  "httpRequest stuckEnv s (Post ''/data.lua'' b) =
     (Response 200 loginPage, s\<lparr>requests := requests s @ [Post ''/data.lua'' b]\<rparr>)"
  by (simp add: httpRequest_def router_stuckEnv pagesRouter_def)

lemma fetchAndParse_stuck:
  "\<exists>s1. fetchAndParse stuckEnv fc ''session-pc'' s = (Inl notFoundMessage, s1) \<and>
        length (filter isDataPost (requests s1)) = Suc (length (filter isDataPost (requests s)))"
proof (cases "sessionId s = None \<or> sessionId s = Some []")
  case True
  obtain s2 where g: "getSessionId stuckEnv fc s = (Inr ''9c1a2b3c4d5e6f70'', s2)"
    and n: "length (filter isDataPost (requests s2)) = length (filter isDataPost (requests s))"
    using getSessionId_stuck by blast
  show ?thesis
    using True g n
    by (auto simp: fetchAndParse_def dataPost_stuck Let_def parse_loginPage isDataPost_def)
next
  case False
  then show ?thesis
    by (auto simp: fetchAndParse_def dataPost_stuck Let_def parse_loginPage isDataPost_def)
qed

lemma stuck_never_returns:
  "fst (getParentalControlData calls stuckEnv fc ''session-pc'' s) = None \<and>
   length (filter isDataPost (requests (snd (getParentalControlData calls stuckEnv fc ''session-pc'' s))))
     = length (filter isDataPost (requests s)) + calls"
proof (induction calls arbitrary: s)
  case 0
  then show ?case by simp
next
  case (Suc calls)
  obtain s1 where f: "fetchAndParse stuckEnv fc ''session-pc'' s = (Inl notFoundMessage, s1)"
    and n1: "length (filter isDataPost (requests s1)) = Suc (length (filter isDataPost (requests s)))"
    using fetchAndParse_stuck by blast
  obtain s2 where g: "getSessionId stuckEnv fc (s1\<lparr>sessionId := None\<rparr>) = (Inr ''9c1a2b3c4d5e6f70'', s2)"
    and n2: "length (filter isDataPost (requests s2)) = length (filter isDataPost (requests (s1\<lparr>sessionId := None\<rparr>)))"
    using getSessionId_stuck by blast
  have "getParentalControlData (Suc calls) stuckEnv fc ''session-pc'' s
      = getParentalControlData calls stuckEnv fc ''session-pc'' s2"
    using f g notFound_session by simp
  then show ?case using Suc.IH [of s2] n1 n2 by simp
qed

text \<open>
  Claim C2 does not hold of the code. The \<open>catch\<close> block of \<open>getParentalControlData\<close>
  re-authenticates and calls \<open>getParentalControlData\<close> again whenever the message of the
  error contains \<open>session\<close>; nothing counts these calls. With the device \<open>session-pc\<close>
  missing from the first two data pages and listed in the third, the client posts to
  \<open>/data.lua\<close> three times (requests 2, 5 and 8) and returns the data of the third page.
  With the device missing from every page, no number of calls is enough for a return:
  \<open>n\<close> calls post \<open>n\<close> times to \<open>/data.lua\<close> and the \<open>n\<close>-th calls again.
\<close>

theorem C2_retries_without_bound:
  "fst (getParentalControlData 3 (retryEnv 8) exampleClient ''session-pc'' emptyWorld)
     = Some (Inr \<lparr>used = ''00:04'', total = ''02:10'', remainingMinutes = 126, isExhausted = False\<rparr>) \<and>
   map (\<lambda>k. router (retryEnv 8) k dataRequest) [2, 5, 8]
     = [Response 200 loginPage, Response 200 loginPage, Response 200 sessionDevicePage] \<and>
   parseParentalControlData e loginPage ''session-pc'' = Inl notFoundMessage \<and>
   includesStr notFoundMessage ''session'' \<and>
   filter isDataPost
     (requests (snd (getParentalControlData 3 (retryEnv 8) exampleClient ''session-pc'' emptyWorld)))
     = [dataRequest, dataRequest, dataRequest] \<and>
   fst (getParentalControlData n stuckEnv fc ''session-pc'' s) = None \<and>
   length (filter isDataPost (requests (snd (getParentalControlData n stuckEnv fc ''session-pc'' s))))
     = length (filter isDataPost (requests s)) + n"
proof (intro conjI)
  show "fst (getParentalControlData 3 (retryEnv 8) exampleClient ''session-pc'' emptyWorld)
     = Some (Inr \<lparr>used = ''00:04'', total = ''02:10'', remainingMinutes = 126, isExhausted = False\<rparr>)"
    by code_simp
  show "map (\<lambda>k. router (retryEnv 8) k dataRequest) [2, 5, 8]
     = [Response 200 loginPage, Response 200 loginPage, Response 200 sessionDevicePage]"
    by code_simp
  show "filter isDataPost
     (requests (snd (getParentalControlData 3 (retryEnv 8) exampleClient ''session-pc'' emptyWorld)))
     = [dataRequest, dataRequest, dataRequest]"
    by code_simp
  show "parseParentalControlData e loginPage ''session-pc'' = Inl notFoundMessage"
    by (rule parse_loginPage)
  show "includesStr notFoundMessage ''session''"
    by (rule notFound_session)
  show "fst (getParentalControlData n stuckEnv fc ''session-pc'' s) = None"
    using stuck_never_returns [of n fc s] by (rule conjunct1)
  show "length (filter isDataPost (requests (snd (getParentalControlData n stuckEnv fc ''session-pc'' s))))
     = length (filter isDataPost (requests s)) + n"
    using stuck_never_returns [of n fc s] by (rule conjunct2)
qed

section \<open>Failures of the check\<close>

text \<open>
  What the check does with a failure that reaches it. Let the connection test fail, or
  let \<open>getParentalControlData\<close> throw. Then \<open>checkAndAlert\<close> returns normally, and its
  final state is that of \<open>handleFritzConnectionError\<close>, run on a state that holds the
  alert rows and the SMS calls of the start and, as new log entries, \<open>check_start\<close> and,
  when the failure was thrown, \<open>check_error\<close>: no threshold alert is sent.
  \<open>getParentalControlData\<close> throws, in its first call, every failure of its \<open>try\<close> block
  whose message does not contain \<open>session\<close>.
\<close>

lemma failure_runs_handler:
  assumes "\<not> fst (testConnection e (logSystem s checkStartLog)) \<or>
           fst (getParentalControlData calls e fc (device_name cfg)
                  (snd (testConnection e (logSystem s checkStartLog)))) = Some (Inl msg)"
  shows "\<exists>s1. checkAndAlert calls e fc cfg today errorDay s
                  = Some (Inr (), handleFritzConnectionError e cfg errorDay s1) \<and>
              alert_logs s1 = alert_logs s \<and> sms_calls s1 = sms_calls s \<and>
              map event (system_logs s1) =
                map event (system_logs s) @ [''check_start''] @
                (if fst (testConnection e (logSystem s checkStartLog)) then [''check_error''] else [])"
proof -
  let ?s1 = "logSystem s checkStartLog"
  obtain c s2 where t: "testConnection e ?s1 = (c, s2)" by (cases "testConnection e ?s1")
  have st2: "sameStores ?s1 s2" using testConnection_stores [of ?s1 e] t by simp
  have l2: "map event (system_logs s2) = map event (system_logs s) @ [''check_start'']"
    "alert_logs s2 = alert_logs s" "sms_calls s2 = sms_calls s"
    using st2 by (simp_all add: sameStores_def logSystem_def checkStartLog_def)
  show ?thesis
  proof (cases c)
    case False
    then have "checkAndAlert calls e fc cfg today errorDay s
        = Some (Inr (), handleFritzConnectionError e cfg errorDay s2)"
      using t by (simp add: checkAndAlert_def checkBody_def)
    with False l2 t show ?thesis by (intro exI [of _ s2]) simp
  next
    case True
    with assms t have g: "fst (getParentalControlData calls e fc (device_name cfg) s2) = Some (Inl msg)"
      by simp
    obtain s3 where g3: "getParentalControlData calls e fc (device_name cfg) s2 = (Some (Inl msg), s3)"
      using g by (cases "getParentalControlData calls e fc (device_name cfg) s2") simp
    have st3: "sameStores s2 s3"
      using getParentalControlData_stores [of s2 calls e fc "device_name cfg"] g3 by simp
    let ?s4 = "logSystem s3 \<lparr>event = ''check_error'', log_message = ''Error during check: '' @ msg, log_level = error\<rparr>"
    have "checkAndAlert calls e fc cfg today errorDay s
        = Some (Inr (), handleFritzConnectionError e cfg errorDay ?s4)"
      using t True g3 by (simp add: checkAndAlert_def checkBody_def)
    moreover have "alert_logs ?s4 = alert_logs s" "sms_calls ?s4 = sms_calls s"
      "map event (system_logs ?s4) = map event (system_logs s) @ [''check_start''] @ [''check_error'']"
      using l2 st3 by (simp_all add: logSystem_def sameStores_def)
    ultimately show ?thesis using True t by (intro exI [of _ ?s4]) simp
  qed
qed

lemma first_failure_thrown:
  assumes "fst (fetchAndParse e fc deviceName s) = Inl m" and "\<not> includesStr m ''session''"
  shows "fst (getParentalControlData (Suc n) e fc deviceName s)
           = Some (Inl (''Failed to fetch parental control data: '' @ m))"
  using assms by (cases "fetchAndParse e fc deviceName s") simp

lemma testConnection_stuck:
  "testConnection stuckEnv s = (True, s\<lparr>requests := requests s @ [Get ''/'']\<rparr>)"
  by (simp add: testConnection_def httpRequest_def router_stuckEnv pagesRouter_def)

lemma stuck_check_never_returns:
  "checkAndAlert n stuckEnv fc sessionConfig today errorDay s = None"
proof -
  let ?s2 = "logSystem s checkStartLog\<lparr>requests := requests (logSystem s checkStartLog) @ [Get ''/'']\<rparr>"
  obtain r s3 where g: "getParentalControlData n stuckEnv fc ''session-pc'' ?s2 = (r, s3)"
    by (cases "getParentalControlData n stuckEnv fc ''session-pc'' ?s2")
  have "r = None" using stuck_never_returns [of n fc ?s2] g by simp
  then show ?thesis
    using g by (simp add: checkAndAlert_def checkBody_def testConnection_stuck sessionConfig_def)
qed

lemma stuck_first_failure:
  "fst (fetchAndParse stuckEnv exampleClient ''Leos-11''
          (snd (testConnection stuckEnv (logSystem emptyWorld checkStartLog)))) = Inl leosNotFound"
  by code_simp

lemma leosNotFound_no_session: "\<not> includesStr leosNotFound ''session''"
  by code_simp

lemma stuck_check:
  "map_option (\<lambda>(r, w). (map sms_to (sms_calls w), map remaining_minutes (alert_logs w),
                       map event (system_logs w)))
     (checkAndAlert 1 stuckEnv exampleClient sentinelConfig ''2025-01-01'' ''2025-01-01'' emptyWorld)
     = Some ([''+15550199''], [- 1], [''check_start'', ''check_error'', ''fritz_connection_error''])"
  by code_simp

lemma recovered_check:
  "map_option (\<lambda>(r, w). (r, requests w ! 3, map sms_to (sms_calls w), map sms_key (sms_calls w),
                       map event (system_logs w)))
     (checkAndAlert 2 (retryEnv 4) exampleClient sessionConfig ''2025-01-01'' ''2025-01-01'' emptyWorld)
     = Some (Inr (), dataRequest, [''+15550100''], [130], [''check_start'', ''time_check'', ''alert_sent''])"
  by code_simp

text \<open>
  Claim C5 does not hold of the code for every parse failure. The \<open>catch\<close> block of
  \<open>getParentalControlData\<close> tells an expired session from other failures by the word
  \<open>session\<close> in the message of the error, and the message of a parse failure holds the
  device name. With the device \<open>session-pc\<close>, which \<open>validateConfig\<close> accepts, a data page
  that lacks the device is a parse failure whose message contains \<open>session\<close>, so it does
  not reach \<open>checkAndAlert\<close>: the client logs in again and fetches again. When the second
  page lists the device, the check sends the alert of the rule for 130 minutes and runs
  no connection alert. When no page lists the device, the check does not return,
  whatever the number of calls allowed. With the device \<open>Leos-11\<close> the same router gives
  a parse failure without \<open>session\<close> in its message, and the check does what the claim
  says: it logs \<open>check_error\<close>, sends the connection alert to the admin number and returns.
\<close>

theorem C5_parse_failure_retried_by_device_name:
  "validateConfig (rawOfConfig sessionConfig) = [] \<and>
   device_name sessionConfig = ''session-pc'' \<and>
   parseParentalControlData e loginPage ''session-pc'' = Inl notFoundMessage \<and>
   includesStr notFoundMessage ''session'' \<and>
   router (retryEnv 4) 3 dataRequest = Response 200 loginPage \<and>
   map_option (\<lambda>(r, w). (r, requests w ! 3, map sms_to (sms_calls w), map sms_key (sms_calls w),
                       map event (system_logs w)))
     (checkAndAlert 2 (retryEnv 4) exampleClient sessionConfig ''2025-01-01'' ''2025-01-01'' emptyWorld)
     = Some (Inr (), dataRequest, [''+15550100''], [130], [''check_start'', ''time_check'', ''alert_sent'']) \<and>
   checkAndAlert n stuckEnv fc sessionConfig today errorDay s = None \<and>
   fst (fetchAndParse stuckEnv exampleClient ''Leos-11''
          (snd (testConnection stuckEnv (logSystem emptyWorld checkStartLog)))) = Inl leosNotFound \<and>
   \<not> includesStr leosNotFound ''session'' \<and>
   map_option (\<lambda>(r, w). (map sms_to (sms_calls w), map remaining_minutes (alert_logs w),
                       map event (system_logs w)))
     (checkAndAlert 1 stuckEnv exampleClient sentinelConfig ''2025-01-01'' ''2025-01-01'' emptyWorld)
     = Some ([''+15550199''], [- 1], [''check_start'', ''check_error'', ''fritz_connection_error''])"
proof (intro conjI)
  show "validateConfig (rawOfConfig sessionConfig) = []"
    by code_simp
  show "device_name sessionConfig = ''session-pc''"
    by (simp add: sessionConfig_def)
  show "parseParentalControlData e loginPage ''session-pc'' = Inl notFoundMessage"
    by (rule parse_loginPage)
  show "includesStr notFoundMessage ''session''"
    by (rule notFound_session)
  show "router (retryEnv 4) 3 dataRequest = Response 200 loginPage"
    by code_simp
  show "map_option (\<lambda>(r, w). (r, requests w ! 3, map sms_to (sms_calls w), map sms_key (sms_calls w),
                       map event (system_logs w)))
     (checkAndAlert 2 (retryEnv 4) exampleClient sessionConfig ''2025-01-01'' ''2025-01-01'' emptyWorld)
     = Some (Inr (), dataRequest, [''+15550100''], [130], [''check_start'', ''time_check'', ''alert_sent''])"
    by (rule recovered_check)
  show "checkAndAlert n stuckEnv fc sessionConfig today errorDay s = None"
    by (rule stuck_check_never_returns)
  show "fst (fetchAndParse stuckEnv exampleClient ''Leos-11''
          (snd (testConnection stuckEnv (logSystem emptyWorld checkStartLog)))) = Inl leosNotFound"
    by (rule stuck_first_failure)
  show "\<not> includesStr leosNotFound ''session''"
    by (rule leosNotFound_no_session)
  show "map_option (\<lambda>(r, w). (map sms_to (sms_calls w), map remaining_minutes (alert_logs w),
                       map event (system_logs w)))
     (checkAndAlert 1 stuckEnv exampleClient sentinelConfig ''2025-01-01'' ''2025-01-01'' emptyWorld)
     = Some ([''+15550199''], [- 1], [''check_start'', ''check_error'', ''fritz_connection_error''])"
    by (rule stuck_check)
qed

section \<open>At most one row and one alert per number, day and key\<close>

text \<open>
  Claim C4. Invocations run one after the other (\<open>run\<close>). If no (number, day, key) has
  more than one row in \<open>alert_logs\<close> before a sequence of invocations, none has more
  than one row after it (the empty table is such a start); and the invocations only
  append rows, each appended while the dedup query for its (number, day, key) is false
  on the table as it is at that moment.
\<close>

theorem C4_at_most_one_row_per_triple:
  assumes "run e fc cfg invs s = Some s'"
    and "\<forall>p d k. alertCount (alert_logs s) p d k \<le> 1"
  shows "(\<forall>p d k. alertCount (alert_logs s') p d k \<le> 1) \<and>
         (\<exists>rows. alert_logs s' = alert_logs s @ rows \<and> freshRows (alert_logs s) rows)"
proof -
  from run_effect [OF assms(1)] obtain calls where
    c: "alert_logs s' = alert_logs s @ map rowOf (filter sms_ok calls)" "gatedCalls (alert_logs s) calls"
    unfolding effect_def by blast
  from gatedCalls_freshRows [OF c(2)] have f: "freshRows (alert_logs s) (map rowOf (filter sms_ok calls))" .
  from freshRows_invariant [OF f assms(2)] c(1) f show ?thesis by auto
qed

lemma session_run:
  "map_option (\<lambda>w. (map phone_number (alert_logs w), map remaining_minutes (alert_logs w)))
     (run (retryEnv 0) exampleClient sessionConfig
        [(1, ''2025-01-01'', ''2025-01-01''), (1, ''2025-01-01'', ''2025-01-01'')] emptyWorld)
     = Some ([''+15550100''], [130])"
  by code_simp

text \<open>Two checks on one day with 126 minutes left: the rule for 130 minutes is recorded once.\<close>

theorem C4_at_most_one_row_per_triple_witness:
  "(\<forall>p d k. alertCount (alert_logs emptyWorld) p d k \<le> 1) \<and>
   (\<exists>s'. run (retryEnv 0) exampleClient sessionConfig
            [(1, ''2025-01-01'', ''2025-01-01''), (1, ''2025-01-01'', ''2025-01-01'')] emptyWorld = Some s' \<and>
          map remaining_minutes (alert_logs s') = [130] \<and>
          alertCount (alert_logs s') ''+15550100'' ''2025-01-01'' 130 \<le> 1)"
proof -
  have h: "\<forall>p d k. alertCount (alert_logs emptyWorld) p d k \<le> 1"
    by (simp add: emptyWorld_def alertCount_def)
  obtain s' where r: "run (retryEnv 0) exampleClient sessionConfig
            [(1, ''2025-01-01'', ''2025-01-01''), (1, ''2025-01-01'', ''2025-01-01'')] emptyWorld = Some s'"
    and v: "map remaining_minutes (alert_logs s') = [130]"
    using session_run
    by (cases "run (retryEnv 0) exampleClient sessionConfig
            [(1, ''2025-01-01'', ''2025-01-01''), (1, ''2025-01-01'', ''2025-01-01'')] emptyWorld") auto
  from C4_at_most_one_row_per_triple [OF r h]
  have c: "alertCount (alert_logs s') ''+15550100'' ''2025-01-01'' 130 \<le> 1" by simp
  show ?thesis
    by (intro conjI exI [of _ s']) (rule h r v c)+
qed

text \<open>
  Claim C3. Over any sequence of invocations, started from any table: every SMS call
  with key \<open>-1\<close> carries the connection message and goes to the number of a destination
  flagged \<open>isAdmin\<close>; every call is made while the dedup query for its key is false
  (\<open>gatedCalls\<close>), so no call with key \<open>-1\<close> is made for a number and day that the table
  had a row for at the start; the rows written are exactly the rows of the calls that
  succeeded; and for every number and day at most one call with key \<open>-1\<close> succeeds.
  (A call that the SMS service rejects writes no row and is tried again by the next
  failing invocation.)
\<close>

theorem C3_connection_alert_once_per_day:
  assumes "run e fc cfg invs s = Some s'"
  shows "\<exists>calls. sms_calls s' = sms_calls s @ calls \<and>
           alert_logs s' = alert_logs s @ map rowOf (filter sms_ok calls) \<and>
           gatedCalls (alert_logs s) calls \<and>
           (\<forall>c \<in> set calls. sms_key c = - 1 \<longrightarrow> sms_body c = connectionMessage \<and> sms_to c \<in> adminNumbers cfg) \<and>
           (\<forall>to day. length (filter (\<lambda>c. sms_ok c \<and> sms_to c = to \<and> sms_date c = day \<and> sms_key c = - 1) calls) \<le> 1) \<and>
           (\<forall>to day. wasAlertSentForMinutes (alert_logs s) to day (- 1) \<longrightarrow>
                filter (\<lambda>c. sms_to c = to \<and> sms_date c = day \<and> sms_key c = - 1) calls = [])"
proof -
  from run_effect [OF assms] obtain calls where
    c: "sms_calls s' = sms_calls s @ calls" "alert_logs s' = alert_logs s @ map rowOf (filter sms_ok calls)"
      "gatedCalls (alert_logs s) calls" "list_all (thresholdOrAdmin cfg) calls"
    unfolding effect_def by blast
  have a: "\<forall>c \<in> set calls. sms_key c = - 1 \<longrightarrow> sms_body c = connectionMessage \<and> sms_to c \<in> adminNumbers cfg"
    using c(4) by (simp add: list_all_iff thresholdOrAdmin_def)
  have o: "\<forall>to day. length (filter (\<lambda>c. sms_ok c \<and> sms_to c = to \<and> sms_date c = day \<and> sms_key c = - 1) calls) \<le> 1"
    using gatedCalls_once [OF c(3)] by blast
  have n: "\<forall>to day. wasAlertSentForMinutes (alert_logs s) to day (- 1) \<longrightarrow>
                filter (\<lambda>c. sms_to c = to \<and> sms_date c = day \<and> sms_key c = - 1) calls = []"
    using gatedCalls_once [OF c(3)] by blast
  from c(1,2,3) a o n show ?thesis by blast
qed

lemma offline_run:
  "map_option (\<lambda>w. (map sms_to (sms_calls w), map sms_key (sms_calls w), map sms_ok (sms_calls w),
                   map remaining_minutes (alert_logs w)))
     (run offlineEnv exampleClient sentinelConfig
        [(1, ''2025-01-01'', ''2025-01-01''), (1, ''2025-01-01'', ''2025-01-01''),
         (1, ''2025-01-01'', ''2025-01-01'')] emptyWorld)
     = Some ([''+15550199''], [- 1], [True], [- 1])"
  by code_simp

text \<open>Three checks on one day with the router unreachable: one connection alert.\<close>

theorem C3_connection_alert_once_per_day_witness:
  "\<exists>s'. run offlineEnv exampleClient sentinelConfig
            [(1, ''2025-01-01'', ''2025-01-01''), (1, ''2025-01-01'', ''2025-01-01''),
             (1, ''2025-01-01'', ''2025-01-01'')] emptyWorld = Some s' \<and>
        map sms_to (sms_calls s') = [''+15550199''] \<and> map sms_ok (sms_calls s') = [True] \<and>
        map remaining_minutes (alert_logs s') = [- 1] \<and>
        length (filter (\<lambda>c. sms_ok c \<and> sms_to c = ''+15550199'' \<and> sms_date c = ''2025-01-01'' \<and>
                           sms_key c = - 1) (sms_calls s')) \<le> 1"
proof -
  obtain s' where r: "run offlineEnv exampleClient sentinelConfig
            [(1, ''2025-01-01'', ''2025-01-01''), (1, ''2025-01-01'', ''2025-01-01''),
             (1, ''2025-01-01'', ''2025-01-01'')] emptyWorld = Some s'"
    and v: "map sms_to (sms_calls s') = [''+15550199'']" "map sms_ok (sms_calls s') = [True]"
      "map remaining_minutes (alert_logs s') = [- 1]"
    using offline_run
    by (cases "run offlineEnv exampleClient sentinelConfig
            [(1, ''2025-01-01'', ''2025-01-01''), (1, ''2025-01-01'', ''2025-01-01''),
             (1, ''2025-01-01'', ''2025-01-01'')] emptyWorld") auto
  from C3_connection_alert_once_per_day [OF r] obtain calls where
    c: "sms_calls s' = sms_calls emptyWorld @ calls"
    "\<forall>to day. length (filter (\<lambda>c. sms_ok c \<and> sms_to c = to \<and> sms_date c = day \<and> sms_key c = - 1) calls) \<le> 1"
    by blast
  from c(1) have "calls = sms_calls s'" by (simp add: emptyWorld_def)
  with c(2) have n: "length (filter (\<lambda>c. sms_ok c \<and> sms_to c = ''+15550199'' \<and> sms_date c = ''2025-01-01'' \<and>
                           sms_key c = - 1) (sms_calls s')) \<le> 1" by simp
  show ?thesis
    by (intro conjI exI [of _ s']) (rule r v n)+
qed

end
